theory Spec2Isabelle
  imports Main "HOL-Library.Word" "HOL-Library.Sublist"
begin

section \<open>The polyfill build script (tasks/buildsources.js)\<close>

text \<open>
  A shallow embedding of \<^verbatim>\<open>node_modules/polyfill-library/tasks/buildsources.js\<close>:
  feature discovery, the per-feature loading chain, the two dependency checks, the alias
  index and the output writer, followed by the properties of the specification.
\<close>

subsection \<open>JavaScript strings\<close>

text \<open>
  A JavaScript string is a sequence of UTF-16 code units and \<^verbatim>\<open>.length\<close> counts
  them. String literals of the script are ASCII and are written with \<open>ascii\<close>.
\<close>

type_synonym jschar = "16 word"
type_synonym jsstring = "jschar list"

definition ascii :: "string \<Rightarrow> jsstring" where
  "ascii s = map of_char s"

definition nl :: jsstring where
  "nl = [0x0A]"

text \<open>\<^verbatim>\<open>s.startsWith(t)\<close>; \<^verbatim>\<open>s.indexOf(t) !== 0\<close> is its negation.\<close>

definition startsWith :: "jsstring \<Rightarrow> jsstring \<Rightarrow> bool" where
  "startsWith s t = prefix t s"

text \<open>The regular-expression classes: \<^verbatim>\<open>.\<close> excludes the line terminators, \<^verbatim>\<open>\s\<close> is white space.\<close>

definition is_line_terminator :: "jschar \<Rightarrow> bool" where
  "is_line_terminator c = (c = 0x0A \<or> c = 0x0D \<or> c = 0x2028 \<or> c = 0x2029)"

definition is_space :: "jschar \<Rightarrow> bool" where
  "is_space c = (c = 0x09 \<or> c = 0x0A \<or> c = 0x0B \<or> c = 0x0C \<or> c = 0x0D \<or> c = 0x20
     \<or> c = 0xA0 \<or> c = 0x1680 \<or> (0x2000 \<le> c \<and> c \<le> 0x200A) \<or> c = 0x2028 \<or> c = 0x2029
     \<or> c = 0x202F \<or> c = 0x205F \<or> c = 0x3000 \<or> c = 0xFEFF)"

subsection \<open>Errors\<close>

text \<open>
  Every \<^verbatim>\<open>throw\<close> and every rejected promise is a value: \<open>Thrown name message cause\<close>
  is a thrown object literal \<^verbatim>\<open>{name, message, error}\<close>, \<open>Error m\<close> is
  \<^verbatim>\<open>new Error(m)\<close>, \<open>TypeError m\<close> is raised by the engine, \<open>Rejected s\<close> is
  \<^verbatim>\<open>Promise.reject(s)\<close> with a string, and \<open>Foreign\<close> stands for an error value made
  by a collaborator (file system, TOML parser, vm, uglify) whose contents are not modelled.
\<close>

datatype error =
    Thrown "jsstring option" jsstring error
  | Error jsstring
  | TypeError jsstring
  | Rejected jsstring
  | Foreign

fun message :: "error \<Rightarrow> jsstring" where
  "message (Thrown n m e) = m"
| "message (Error m) = m"
| "message (TypeError m) = m"
| "message (Rejected s) = s"
| "message Foreign = []"

subsection \<open>Paths and the file system\<close>

text \<open>
  The tree below the \<^verbatim>\<open>source\<close> directory. \<^verbatim>\<open>lstatSync(..).isDirectory()\<close> does
  not follow links, so everything that is not a directory is a \<open>File\<close>. A directory lists
  its entries in the order \<^verbatim>\<open>readdirSync\<close> returns them. A path is the list of entry
  names from \<^verbatim>\<open>source\<close> down; \<^verbatim>\<open>path.join(directory, item)\<close> appends one name.
\<close>

datatype fsnode = File jsstring | Dir "(jsstring \<times> fsnode) list"

type_synonym path = "jsstring list"

datatype platform = Posix | Win32

fun sep :: "platform \<Rightarrow> jschar" where
  "sep Posix = 0x2F"
| "sep Win32 = 0x5C"

fun lookup :: "fsnode \<Rightarrow> path \<Rightarrow> fsnode option"
  and lookup_entries :: "(jsstring \<times> fsnode) list \<Rightarrow> jsstring \<Rightarrow> path \<Rightarrow> fsnode option" where
  "lookup n [] = Some n"
| "lookup (File c) (i # is) = None"
| "lookup (Dir es) (i # is) = lookup_entries es i is"
| "lookup_entries [] i is = None"
| "lookup_entries ((n, t) # es) i is = (if n = i then lookup t is else lookup_entries es i is)"

definition existsSync :: "fsnode \<Rightarrow> path \<Rightarrow> bool" where
  "existsSync fs p = (lookup fs p \<noteq> None)"

text \<open>Reading succeeds on a file only (a missing entry and a directory both fail).\<close>

definition readFile :: "fsnode \<Rightarrow> path \<Rightarrow> jsstring option" where
  "readFile fs p = (case lookup fs p of Some (File c) \<Rightarrow> Some c | _ \<Rightarrow> None)"

text \<open>\<^verbatim>\<open>path.relative(source, absolute)\<close>: the names joined by the platform's separator.\<close>

fun relative :: "platform \<Rightarrow> path \<Rightarrow> jsstring" where
  "relative pf [] = []"
| "relative pf [i] = i"
| "relative pf (i # is) = i @ [sep pf] @ relative pf is"

subsection \<open>Feature configuration\<close>

text \<open>
  The parsed \<^verbatim>\<open>config.toml\<close>, with the keys the script reads at the types it reads them
  at; a key that is absent is \<open>None\<close>. The last six fields are the derived ones the script
  stores into the same object.
\<close>

record build_options =
  minify :: "bool option"

record test_options =
  ci :: "bool option"

record config =
  cfg_dependencies :: "jsstring list option"
  cfg_aliases :: "jsstring list option"
  license :: "jsstring option"
  licence :: "jsstring option"
  browsers :: "(jsstring \<times> jsstring) list option"
  build :: "build_options option"
  test :: "test_options option"
  detectSource :: "jsstring option"
  baseDir :: "jsstring option"
  hasTests :: "bool option"
  isTestable :: "bool option"
  isPublic :: "bool option"
  size_field :: "nat option"

definition empty_config :: config where
  "empty_config = \<lparr>cfg_dependencies = None, cfg_aliases = None, license = None, licence = None,
     browsers = None, build = None, test = None, detectSource = None, baseDir = None,
     hasTests = None, isTestable = None, isPublic = None, size_field = None\<rparr>"

subsection \<open>External collaborators\<close>

text \<open>
  The libraries the script calls, as parameters: the TOML parser (\<open>None\<close> when it throws),
  \<^verbatim>\<open>new vm.Script\<close> (whether the code parses), \<^verbatim>\<open>uglify.minify\<close> with the options of
  \<^verbatim>\<open>minifyPolyfill\<close> and of \<^verbatim>\<open>minifyDetect\<close> (\<open>None\<close> when it throws), the SPDX
  registry, and the sorted keys of \<^verbatim>\<open>UA.getBaselines()\<close>; the platform and the
  \<^verbatim>\<open>source\<close> directory complete the environment.
\<close>

record spdx_license =
  license_name :: jsstring
  OSIApproved :: bool

record externals =
  platform :: platform
  source :: jsstring
  toml_parse :: "jsstring \<Rightarrow> config option"
  vm_script :: "jsstring \<Rightarrow> bool"
  uglify_polyfill :: "jsstring \<Rightarrow> jsstring option"
  uglify_detect :: "jsstring \<Rightarrow> jsstring option"
  spdx :: "jsstring \<Rightarrow> spdx_license option"
  supportedBrowsers :: "jsstring list"

text \<open>A path as the string that appears in messages and in the output tree.\<close>

definition path_join :: "externals \<Rightarrow> jsstring \<Rightarrow> jsstring \<Rightarrow> jsstring" where
  "path_join ext a b = a @ [sep (platform ext)] @ b"

definition absolute_string :: "externals \<Rightarrow> path \<Rightarrow> jsstring" where
  "absolute_string ext p = foldl (path_join ext) (source ext) p"

subsection \<open>The class \<^verbatim>\<open>Polyfill\<close>\<close>

record sources =
  raw :: jsstring
  min_src :: jsstring

text \<open>
  \<open>path_absolute\<close> locates the directory in the tree, \<open>path_relative\<close> is the string
  \<^verbatim>\<open>path.relative(source, absolute)\<close>. \<^verbatim>\<open>this.sources = {}\<close> is \<open>None\<close>.
\<close>

record polyfill =
  path_absolute :: path
  path_relative :: jsstring
  name :: jsstring
  config :: config
  sources :: "sources option"

text \<open>The constructor; the name is \<^verbatim>\<open>relative.replace(/(\/|\\)/g, '.')\<close>.\<close>

definition Polyfill :: "path \<Rightarrow> jsstring \<Rightarrow> polyfill" where
  "Polyfill absolute rel =
     \<lparr>path_absolute = absolute, path_relative = rel,
      name = map (\<lambda>c. if c = 0x2F \<or> c = 0x5C then 0x2E else c) rel,
      config = empty_config, sources = None\<rparr>"

definition aliases :: "polyfill \<Rightarrow> jsstring list" where
  "aliases p = ascii ''all'' # (case cfg_aliases (config p) of None \<Rightarrow> [] | Some as \<Rightarrow> as)"

definition dependencies :: "polyfill \<Rightarrow> jsstring list" where
  "dependencies p = (case cfg_dependencies (config p) of None \<Rightarrow> [] | Some ds \<Rightarrow> ds)"

definition configPath :: "polyfill \<Rightarrow> path" where
  "configPath p = path_absolute p @ [ascii ''config.toml'']"

definition detectPath :: "polyfill \<Rightarrow> path" where
  "detectPath p = path_absolute p @ [ascii ''detect.js'']"

definition sourcePath :: "polyfill \<Rightarrow> path" where
  "sourcePath p = path_absolute p @ [ascii ''polyfill.js'']"

definition hasConfigFile :: "fsnode \<Rightarrow> polyfill \<Rightarrow> bool" where
  "hasConfigFile fs p = existsSync fs (configPath p)"

text \<open>
  \<^verbatim>\<open>this.config.size = this.sources.min.length\<close>; reading \<^verbatim>\<open>.length\<close> of the missing
  \<^verbatim>\<open>min\<close> of an unloaded feature is a TypeError.
\<close>

definition updateConfig :: "polyfill \<Rightarrow> error + polyfill" where
  "updateConfig p =
     (case sources p of
        None \<Rightarrow> Inl (TypeError (ascii ''Cannot read properties of undefined (reading 'length')''))
      | Some s \<Rightarrow> Inr (p\<lparr>config := (config p)\<lparr>size_field := Some (length (min_src s))\<rparr>\<rparr>))"

definition validateSource :: "externals \<Rightarrow> jsstring \<Rightarrow> jsstring \<Rightarrow> error + unit" where
  "validateSource ext code label =
     (if vm_script ext code then Inr ()
      else Inl (Thrown (Some (ascii ''Parse error''))
                  (ascii ''Error parsing source code for '' @ label) Foreign))"

text \<open>\<^verbatim>\<open>this.config.build && this.config.build.minify === false\<close>\<close>

definition minify_disabled :: "config \<Rightarrow> bool" where
  "minify_disabled c = (case build c of None \<Rightarrow> False | Some b \<Rightarrow> minify b = Some False)"

definition minifyPolyfill :: "externals \<Rightarrow> polyfill \<Rightarrow> jsstring \<Rightarrow> error + sources" where
  "minifyPolyfill ext p src =
     (let raw0 = nl @ ascii ''// '' @ name p @ nl @ src in
      if minify_disabled (config p) then Inr \<lparr>raw = raw0 @ nl, min_src = src @ nl\<rparr>
      else
        (case validateSource ext src
                (name p @ ascii '' from '' @ absolute_string ext (sourcePath p)) of
           Inl e \<Rightarrow> Inl e
         | Inr u \<Rightarrow>
             (case uglify_polyfill ext src of
                None \<Rightarrow> Inl Foreign
              | Some code \<Rightarrow> Inr \<lparr>raw = raw0, min_src = code\<rparr>)))"

definition minifyDetect :: "externals \<Rightarrow> polyfill \<Rightarrow> jsstring \<Rightarrow> error + sources" where
  "minifyDetect ext p src =
     (let raw0 = nl @ ascii ''// '' @ name p @ nl @ src in
      if minify_disabled (config p) then Inr \<lparr>raw = raw0 @ nl, min_src = src @ nl\<rparr>
      else
        (case validateSource ext src
                (name p @ ascii '' from '' @ absolute_string ext (sourcePath p)) of
           Inl e \<Rightarrow> Inl e
         | Inr u \<Rightarrow>
             (case uglify_detect ext src of
                None \<Rightarrow> Inl Foreign
              | Some code \<Rightarrow> Inr \<lparr>raw = raw0, min_src = code\<rparr>)))"

text \<open>
  \<^verbatim>\<open>s.replace(/^\/\/#\ssourceMappingURL(.+)$/gm, '')\<close>. \<open>strip_prefix t s\<close> is the rest
  of \<open>s\<close> after the literal \<open>t\<close>; \<open>match_source_map s\<close> is the rest of \<open>s\<close> after a match
  that begins at the head of \<open>s\<close>; the scan carries whether the position is the start of
  a line and resumes after each match.
\<close>

fun strip_prefix :: "'a list \<Rightarrow> 'a list \<Rightarrow> 'a list option" where
  "strip_prefix [] s = Some s"
| "strip_prefix (t # ts) [] = None"
| "strip_prefix (t # ts) (c # cs) = (if t = c then strip_prefix ts cs else None)"

definition match_source_map :: "jsstring \<Rightarrow> jsstring option" where
  "match_source_map s =
     (case strip_prefix (ascii ''//#'') s of
        None \<Rightarrow> None
      | Some [] \<Rightarrow> None
      | Some (w # r) \<Rightarrow>
          if \<not> is_space w then None
          else (case strip_prefix (ascii ''sourceMappingURL'') r of
                  None \<Rightarrow> None
                | Some u \<Rightarrow>
                    if takeWhile (\<lambda>c. \<not> is_line_terminator c) u = [] then None
                    else Some (dropWhile (\<lambda>c. \<not> is_line_terminator c) u)))"

lemma strip_prefix_length: "strip_prefix t s = Some r \<Longrightarrow> length r \<le> length s"
  by (induction t s rule: strip_prefix.induct) (auto split: if_splits)

lemma match_source_map_shorter: "match_source_map s = Some r \<Longrightarrow> length r < length s"
proof -
  assume m: "match_source_map s = Some r"
  then obtain w t u where a: "strip_prefix (ascii ''//#'') s = Some (w # t)"
    and b: "strip_prefix (ascii ''sourceMappingURL'') t = Some u"
    and c: "r = dropWhile (\<lambda>c. \<not> is_line_terminator c) u"
    by (auto simp: match_source_map_def split: option.splits list.splits if_splits)
  have "length r \<le> length u" using c by (simp add: length_dropWhile_le)
  also have "\<dots> \<le> length t" using b by (rule strip_prefix_length)
  also have "\<dots> < length (w # t)" by simp
  also have "\<dots> \<le> length s" using a by (rule strip_prefix_length)
  finally show ?thesis .
qed

function replace_source_maps :: "bool \<Rightarrow> jsstring \<Rightarrow> jsstring" where
  "replace_source_maps b [] = []"
| "replace_source_maps b (c # cs) =
     (case (if b then match_source_map (c # cs) else None) of
        Some rest \<Rightarrow> replace_source_maps False rest
      | None \<Rightarrow> c # replace_source_maps (is_line_terminator c) cs)"
  by pat_completeness auto
termination
  by (relation "measure (\<lambda>(b, s). length s)")
     (auto split: if_splits dest: match_source_map_shorter)

definition removeSourceMaps :: "sources \<Rightarrow> sources" where
  "removeSourceMaps s =
     \<lparr>raw = replace_source_maps True (raw s), min_src = replace_source_maps True (min_src s)\<rparr>"

subsection \<open>Loading a feature\<close>

text \<open>
  The check of line 141-148: an internal feature must map every supported browser to
  \<^verbatim>\<open>"*"\<close>. \<^verbatim>\<open>every\<close> calls its callback on the first browser at once, where
  \<^verbatim>\<open>this.config.browsers[browser]\<close> of a config with no \<^verbatim>\<open>browsers\<close> table is a
  TypeError whose text is the engine's.
\<close>

definition browserSupport_toml :: "jsstring list \<Rightarrow> jsstring" where
  "browserSupport_toml bs = concat (map (\<lambda>b. b @ ascii '' = \"*\"'' @ nl) bs)"

definition check_internal :: "externals \<Rightarrow> polyfill \<Rightarrow> config \<Rightarrow> error + unit" where
  "check_internal ext p cfg =
     (if startsWith (path_relative p) (ascii ''_'') then
        (case supportedBrowsers ext of
           [] \<Rightarrow> Inr ()
         | b # bs \<Rightarrow>
             (case browsers cfg of
                None \<Rightarrow>
                  Inl (TypeError (ascii ''Cannot read properties of undefined (reading ''
                                   @ [0x27] @ b @ [0x27] @ ascii '')''))
              | Some tbl \<Rightarrow>
                  if list_all (\<lambda>browser. map_of tbl browser = Some (ascii ''*'')) (b # bs)
                  then Inr ()
                  else Inl (Error (ascii ''Internal polyfill called '' @ name p
                         @ ascii '' is not targeting all supported browsers correctly. It should be: ''
                         @ nl @ browserSupport_toml (b # bs)))))
      else Inr ())"

text \<open>\<^verbatim>\<open>s.replace(/\s*$/, '')\<close> removes the white space at the end.\<close>

definition strip_trailing_space :: "jsstring \<Rightarrow> jsstring" where
  "strip_trailing_space s = rev (dropWhile is_space (rev s))"

text \<open>Lines 161-165, on the config built so far.\<close>

definition load_detect :: "externals \<Rightarrow> fsnode \<Rightarrow> polyfill \<Rightarrow> config \<Rightarrow> error + config" where
  "load_detect ext fs p cfg =
     (if existsSync fs (detectPath p) then
        (case readFile fs (detectPath p) of
           None \<Rightarrow> Inl Foreign
         | Some text \<Rightarrow>
             (case minifyDetect ext (p\<lparr>config := cfg\<rparr>) (strip_trailing_space text) of
                Inl e \<Rightarrow> Inl e
              | Inr s \<Rightarrow>
                  (case validateSource ext (ascii ''if ('' @ min_src s @ ascii '') true;'')
                          (name p @ ascii '' feature detect from ''
                             @ absolute_string ext (detectPath p)) of
                     Inl e \<Rightarrow> Inl e
                   | Inr u \<Rightarrow> Inr (cfg\<lparr>detectSource := Some (min_src s)\<rparr>))))
      else Inr cfg)"

definition loadConfig :: "externals \<Rightarrow> fsnode \<Rightarrow> polyfill \<Rightarrow> error + polyfill" where
  "loadConfig ext fs p =
     (case readFile fs (configPath p) of
        None \<Rightarrow>
          Inl (Thrown (Some (ascii ''Invalid config''))
                 (ascii ''Unable to read config from '' @ absolute_string ext (configPath p))
                 Foreign)
      | Some data \<Rightarrow>
          (case toml_parse ext data of
             None \<Rightarrow> Inl Foreign
           | Some cfg \<Rightarrow>
               (case check_internal ext p cfg of
                  Inl e \<Rightarrow> Inl e
                | Inr u \<Rightarrow>
                    if licence cfg \<noteq> None then
                      Inl (Error (ascii ''Incorrect spelling of license property in '' @ name p))
                    else
                      (case load_detect ext fs p
                              (cfg\<lparr>detectSource := Some [],
                                   baseDir := Some (path_relative p),
                                   hasTests := Some (existsSync fs (path_absolute p @ [ascii ''tests.js''])),
                                   isTestable := Some (\<not> (case test cfg of None \<Rightarrow> False
                                                             | Some t \<Rightarrow> ci t = Some False)),
                                   isPublic := Some (\<not> startsWith (name p) (ascii ''_''))\<rparr>) of
                         Inl e \<Rightarrow> Inl e
                       | Inr cfg' \<Rightarrow> Inr (p\<lparr>config := cfg'\<rparr>)))))"

definition checkLicense :: "externals \<Rightarrow> polyfill \<Rightarrow> error + unit" where
  "checkLicense ext p =
     (case license (config p) of
        None \<Rightarrow> Inr ()
      | Some l \<Rightarrow>
          (case spdx ext l of
             Some lic \<Rightarrow>
               if l \<noteq> ascii ''CC0-1.0'' \<and> l \<noteq> ascii ''WTFPL'' \<and> \<not> OSIApproved lic then
                 Inl (Error (ascii ''The license '' @ l @ ascii '' ('' @ license_name lic
                               @ ascii '') is not OSI approved.''))
               else Inr ()
           | None \<Rightarrow>
               Inl (Error (ascii ''The license '' @ l
                      @ ascii '' is not on the SPDX list of licenses ( https://spdx.org/licenses/ ).''))))"

text \<open>
  The second \<^verbatim>\<open>catch\<close> of \<^verbatim>\<open>loadSources\<close> follows the first, so it wraps the read
  error as well as an error of \<^verbatim>\<open>minifyPolyfill\<close>.
\<close>

definition loadSources :: "externals \<Rightarrow> fsnode \<Rightarrow> polyfill \<Rightarrow> error + polyfill" where
  "loadSources ext fs p =
     (case (case readFile fs (sourcePath p) of
              None \<Rightarrow>
                Inl (Thrown (Some (ascii ''Invalid source''))
                       (ascii ''Unable to read source from '' @ absolute_string ext (sourcePath p))
                       Foreign)
            | Some src \<Rightarrow> minifyPolyfill ext p src) of
        Inl e \<Rightarrow> Inl (Thrown None (ascii ''Error minifying '' @ name p) e)
      | Inr s \<Rightarrow> Inr (p\<lparr>sources := Some (removeSourceMaps s)\<rparr>))"

text \<open>The chain of lines 283-287 for one feature.\<close>

definition load :: "externals \<Rightarrow> fsnode \<Rightarrow> polyfill \<Rightarrow> error + polyfill" where
  "load ext fs p =
     (case loadConfig ext fs p of
        Inl e \<Rightarrow> Inl e
      | Inr p1 \<Rightarrow>
          (case checkLicense ext p1 of
             Inl e \<Rightarrow> Inl e
           | Inr u \<Rightarrow>
               (case loadSources ext fs p1 of
                  Inl e \<Rightarrow> Inl e
                | Inr p2 \<Rightarrow> updateConfig p2)))"

text \<open>
  \<^verbatim>\<open>Promise.all\<close>: the values in order when every promise is fulfilled, a rejection
  otherwise. Several chains may fail and the one that settles first is reported; the model
  reports the one that is first in the list.
\<close>

fun promise_all :: "(error + 'a) list \<Rightarrow> error + 'a list" where
  "promise_all [] = Inr []"
| "promise_all (Inl e # rs) = Inl e"
| "promise_all (Inr v # rs) = (case promise_all rs of Inl e \<Rightarrow> Inl e | Inr vs \<Rightarrow> Inr (v # vs))"

subsection \<open>Feature discovery\<close>

text \<open>
  \<open>flattenPolyfillDirectories directory entries\<close>, on the entries \<^verbatim>\<open>readdirSync\<close> lists:
  for each directory whose name does not start with \<^verbatim>\<open>__\<close>, its own result and then
  itself.
\<close>

fun flattenPolyfillDirectories :: "path \<Rightarrow> (jsstring \<times> fsnode) list \<Rightarrow> path list" where
  "flattenPolyfillDirectories directory [] = []"
| "flattenPolyfillDirectories directory ((item, File c) # rest) =
     flattenPolyfillDirectories directory rest"
| "flattenPolyfillDirectories directory ((item, Dir es) # rest) =
     (if \<not> startsWith item (ascii ''__'')
      then flattenPolyfillDirectories (directory @ [item]) es @ [directory @ [item]]
      else [])
     @ flattenPolyfillDirectories directory rest"

text \<open>Lines 280-282: the candidate features; reading a root that is no directory fails.\<close>

definition candidates :: "externals \<Rightarrow> fsnode \<Rightarrow> path list \<Rightarrow> polyfill list" where
  "candidates ext fs ds =
     filter (hasConfigFile fs) (map (\<lambda>absolute. Polyfill absolute (relative (platform ext) absolute)) ds)"

subsection \<open>The dependency checks\<close>

text \<open>
  Modelled from the spec: the package \<^verbatim>\<open>toposort\<close> is not among the sources. The spec
  says of it: "construct edges dependency\<rightarrow>dependent across all features and attempt a
  topological ordering; any failure (cycle detected) fails the whole run". The model orders
  the nodes of the edge list in rounds: each round moves the pending nodes that have no
  pending predecessor to the end of the ordering; nodes that are still pending after as
  many rounds as there are nodes lie on or behind a cycle, and the call throws.
\<close>

definition has_pending_predecessor ::
  "(jsstring \<times> jsstring) list \<Rightarrow> jsstring list \<Rightarrow> jsstring \<Rightarrow> bool" where
  "has_pending_predecessor es pending n = list_ex (\<lambda>(a, b). b = n \<and> a \<in> set pending) es"

fun toposort_rounds ::
  "nat \<Rightarrow> (jsstring \<times> jsstring) list \<Rightarrow> jsstring list \<Rightarrow> jsstring list \<Rightarrow> jsstring + jsstring list" where
  "toposort_rounds 0 es pending ordered =
     (if pending = [] then Inr ordered else Inl (ascii ''Error: Cyclic dependency''))"
| "toposort_rounds (Suc k) es pending ordered =
     toposort_rounds k es
       (filter (has_pending_predecessor es pending) pending)
       (ordered @ filter (\<lambda>n. \<not> has_pending_predecessor es pending n) pending)"

text \<open>
  Modelled from the spec: \<^verbatim>\<open>toposort(graph)\<close>, on the nodes that occur in the edge
  list, with as many rounds as there are nodes; \<open>Inl\<close> is the text of the error it throws.
\<close>

definition toposort :: "(jsstring \<times> jsstring) list \<Rightarrow> jsstring + jsstring list" where
  "toposort es =
     (let ns = remdups (concat (map (\<lambda>(a, b). [a, b]) es))
      in toposort_rounds (length ns) es ns [])"

text \<open>The two loops of lines 46-50 push one edge per declared dependency.\<close>

definition dependency_graph :: "polyfill list \<Rightarrow> (jsstring \<times> jsstring) list" where
  "dependency_graph polyfills =
     fold (\<lambda>p graph. fold (\<lambda>dependency g. g @ [(dependency, name p)]) (dependencies p) graph)
       polyfills []"

definition circle_in_graph :: "jsstring \<Rightarrow> error" where
  "circle_in_graph e =
     Rejected (nl @ ascii ''There is a circle in the dependency graph.'' @ nl
       @ ascii ''Check the `dependencies` property of polyfill config files that have recently changed, and ensure that they do not form a circle of references.''
       @ e)"

definition checkForCircularDependencies :: "polyfill list \<Rightarrow> error + unit" where
  "checkForCircularDependencies polyfills =
     (case toposort (dependency_graph polyfills) of
        Inr order \<Rightarrow> Inr ()
      | Inl e \<Rightarrow> Inl (circle_in_graph e))"

text \<open>The loops of \<^verbatim>\<open>checkDependenciesExist\<close>, leaving at the first missing name.\<close>

definition missing_dependency :: "jsstring \<Rightarrow> jsstring \<Rightarrow> error" where
  "missing_dependency n dependency =
     Rejected (ascii ''Polyfill '' @ n @ ascii '' depends on '' @ dependency
       @ ascii '', which does not exist within the polyfill-service. Recommended to either add the missing polyfill or remove the dependency.'')"

fun check_dependencies :: "polyfill list \<Rightarrow> polyfill \<Rightarrow> jsstring list \<Rightarrow> error + unit" where
  "check_dependencies polyfills p [] = Inr ()"
| "check_dependencies polyfills p (dependency # ds) =
     (if \<not> list_ex (\<lambda>q. dependency = name q) polyfills
      then Inl (missing_dependency (name p) dependency)
      else check_dependencies polyfills p ds)"

fun check_each :: "polyfill list \<Rightarrow> polyfill list \<Rightarrow> error + unit" where
  "check_each polyfills [] = Inr ()"
| "check_each polyfills (p # ps) =
     (case check_dependencies polyfills p (dependencies p) of
        Inl e \<Rightarrow> Inl e
      | Inr u \<Rightarrow> check_each polyfills ps)"

definition checkDependenciesExist :: "polyfill list \<Rightarrow> error + unit" where
  "checkDependenciesExist polyfills = check_each polyfills polyfills"

subsection \<open>Output\<close>

text \<open>
  What the script asks of the file system, in order: directories made and files written.
  \<^verbatim>\<open>JSON.stringify\<close> is not spelled out: a written file holds a text, the alias object or
  a config (\<open>Undefined\<close> for a source of a feature that was never loaded). The operations
  themselves are taken to succeed; the writes that the script starts together are listed in
  the order it starts them.
\<close>

datatype written =
    Text jsstring
  | AliasIndex "jsstring \<Rightarrow> jsstring list option"
  | Meta config
  | Undefined

datatype effect = MakeDirectory jsstring | WriteFile jsstring written

text \<open>
  The alias object is \<^verbatim>\<open>{}\<close>, so \<^verbatim>\<open>aliases[alias]\<close> of an alias that was not stored
  yet finds what \<^verbatim>\<open>Object.prototype\<close> has under that name: a function or an object,
  which is truthy and cannot be spread.
\<close>

definition object_prototype_keys :: "jsstring list" where
  "object_prototype_keys =
     [ascii ''constructor'', ascii ''__defineGetter__'', ascii ''__defineSetter__'',
      ascii ''hasOwnProperty'', ascii ''__lookupGetter__'', ascii ''__lookupSetter__'',
      ascii ''isPrototypeOf'', ascii ''propertyIsEnumerable'', ascii ''toString'',
      ascii ''valueOf'', ascii ''__proto__'', ascii ''toLocaleString'']"

fun add_aliases ::
  "(jsstring \<Rightarrow> jsstring list option) \<Rightarrow> jsstring \<Rightarrow> jsstring list
     \<Rightarrow> error + (jsstring \<Rightarrow> jsstring list option)" where
  "add_aliases m n [] = Inr m"
| "add_aliases m n (alias # as) =
     (case m alias of
        Some l \<Rightarrow> add_aliases (m(alias \<mapsto> l @ [n])) n as
      | None \<Rightarrow>
          if alias \<in> set object_prototype_keys
          then Inl (TypeError (ascii ''aliases[alias] is not iterable''))
          else add_aliases (m(alias \<mapsto> [n])) n as)"

fun alias_index ::
  "(jsstring \<Rightarrow> jsstring list option) \<Rightarrow> polyfill list
     \<Rightarrow> error + (jsstring \<Rightarrow> jsstring list option)" where
  "alias_index m [] = Inr m"
| "alias_index m (p # ps) =
     (case add_aliases m (name p) (aliases p) of
        Inl e \<Rightarrow> Inl e
      | Inr m' \<Rightarrow> alias_index m' ps)"

definition writeAliasFile :: "externals \<Rightarrow> polyfill list \<Rightarrow> jsstring \<Rightarrow> error + effect" where
  "writeAliasFile ext polyfills directory =
     (case alias_index Map.empty polyfills of
        Inl e \<Rightarrow> Inl e
      | Inr m \<Rightarrow> Inr (WriteFile (path_join ext directory (ascii ''aliases.json'')) (AliasIndex m)))"

definition writeOutput :: "externals \<Rightarrow> jsstring \<Rightarrow> polyfill \<Rightarrow> effect list" where
  "writeOutput ext root p =
     (let destination = path_join ext root (name p) in
      [MakeDirectory destination,
       WriteFile (path_join ext destination (ascii ''meta.json'')) (Meta (config p)),
       WriteFile (path_join ext destination (ascii ''raw.js''))
         (case sources p of None \<Rightarrow> Undefined | Some s \<Rightarrow> Text (raw s)),
       WriteFile (path_join ext destination (ascii ''min.js''))
         (case sources p of None \<Rightarrow> Undefined | Some s \<Rightarrow> Text (min_src s))])"

subsection \<open>The pipeline\<close>

definition destination :: "externals \<Rightarrow> jsstring" where
  "destination ext = path_join ext (source ext) (ascii ''__dist'')"

text \<open>Lines 290-298, on the loaded features: the outcome and what was written.\<close>

definition validate_and_write :: "externals \<Rightarrow> polyfill list \<Rightarrow> (error + unit) \<times> effect list" where
  "validate_and_write ext polyfills =
     (case checkForCircularDependencies polyfills of
        Inl e \<Rightarrow> (Inl e, [])
      | Inr u \<Rightarrow>
          (case checkDependenciesExist polyfills of
             Inl e \<Rightarrow> (Inl e, [])
           | Inr u \<Rightarrow>
               (case writeAliasFile ext polyfills (destination ext) of
                  Inl e \<Rightarrow> (Inl e, [MakeDirectory (destination ext)])
                | Inr w \<Rightarrow>
                    (Inr (), MakeDirectory (destination ext) # w
                               # concat (map (writeOutput ext (destination ext)) polyfills)))))"

text \<open>The pipeline from a list of discovered directories, and the whole run.\<close>

definition run_from :: "externals \<Rightarrow> fsnode \<Rightarrow> path list \<Rightarrow> (error + unit) \<times> effect list" where
  "run_from ext fs ds =
     (case promise_all (map (load ext fs) (candidates ext fs ds)) of
        Inl e \<Rightarrow> (Inl e, [])
      | Inr polyfills \<Rightarrow> validate_and_write ext polyfills)"

definition run :: "externals \<Rightarrow> fsnode \<Rightarrow> (error + unit) \<times> effect list" where
  "run ext fs =
     (case fs of
        File c \<Rightarrow> (Inl Foreign, [])
      | Dir es \<Rightarrow> run_from ext fs (flattenPolyfillDirectories [] es))"

subsection \<open>Notions of the specification\<close>

text \<open>
  The byte length of a string, as the spec words the size: the length of its UTF-8
  encoding, which is what \<^verbatim>\<open>writeFile\<close> stores. A code unit below \<open>0x80\<close> takes one
  byte, one below \<open>0x800\<close> two, a surrogate pair four, any other unit three.
\<close>

definition unit_bytes :: "jschar \<Rightarrow> nat" where
  "unit_bytes c = (if c < 0x80 then 1 else if c < 0x800 then 2 else 3)"

fun byte_length :: "jsstring \<Rightarrow> nat" where
  "byte_length [] = 0"
| "byte_length [c] = unit_bytes c"
| "byte_length (c # d # cs) =
     (if 0xD800 \<le> c \<and> c \<le> 0xDBFF \<and> 0xDC00 \<le> d \<and> d \<le> 0xDFFF then 4 + byte_length cs
      else unit_bytes c + byte_length (d # cs))"

text \<open>
  The canonical name as the spec words it: the relative path with every separator
  replaced by a dot, that is, its segments between separators joined by dots.
\<close>

definition is_separator :: "jschar \<Rightarrow> bool" where
  "is_separator c = (c = 0x2F \<or> c = 0x5C)"

fun segments :: "jsstring \<Rightarrow> jsstring list" where
  "segments [] = [[]]"
| "segments (c # cs) =
     (if is_separator c then [] # segments cs
      else (case segments cs of [] \<Rightarrow> [[c]] | s # ss \<Rightarrow> (c # s) # ss))"

fun join_with :: "jschar \<Rightarrow> jsstring list \<Rightarrow> jsstring" where
  "join_with c [] = []"
| "join_with c [s] = s"
| "join_with c (s # ss) = s @ [c] @ join_with c ss"

definition dotted :: "jsstring \<Rightarrow> jsstring" where
  "dotted rel = join_with 0x2E (segments rel)"

text \<open>
  The (feature, dependency) pairs in the order the loops visit them, and the first pair
  whose dependency names no feature.
\<close>

definition declared_pairs :: "polyfill list \<Rightarrow> (polyfill \<times> jsstring) list" where
  "declared_pairs ps = concat (map (\<lambda>p. map (\<lambda>d. (p, d)) (dependencies p)) ps)"

definition first_violation :: "polyfill list \<Rightarrow> (polyfill \<times> jsstring) option" where
  "first_violation ps = find (\<lambda>(p, d). d \<notin> name ` set ps) (declared_pairs ps)"

text \<open>The edges dependency \<rightarrow> dependent of the dependency graph.\<close>

definition edges :: "polyfill list \<Rightarrow> (jsstring \<times> jsstring) set" where
  "edges ps = {(d, n). \<exists>p \<in> set ps. n = name p \<and> d \<in> set (dependencies p)}"



text \<open>
  \<open>is_directory fs p\<close>: the path \<open>p\<close> leads from \<open>fs\<close> through directories to a
  directory, through any entry of that name.
\<close>

fun is_directory :: "fsnode \<Rightarrow> path \<Rightarrow> bool"
  and has_directory :: "(jsstring \<times> fsnode) list \<Rightarrow> jsstring \<Rightarrow> path \<Rightarrow> bool" where
  "is_directory (File c) p = False"
| "is_directory (Dir es) [] = True"
| "is_directory (Dir es) (i # is) = has_directory es i is"
| "has_directory [] i is = False"
| "has_directory ((n, t) # es) i is = ((n = i \<and> is_directory t is) \<or> has_directory es i is)"

subsection \<open>Example inputs\<close>

text \<open>Collaborators that reject every source, and a feature whose config has
  \<^verbatim>\<open>build.minify = false\<close>.\<close>

definition strict_externals :: externals where
  "strict_externals = \<lparr>platform = Posix, source = ascii ''/polyfills'',
     toml_parse = (\<lambda>t. None), vm_script = (\<lambda>c. False),
     uglify_polyfill = (\<lambda>c. None), uglify_detect = (\<lambda>c. None),
     spdx = (\<lambda>l. None), supportedBrowsers = [ascii ''chrome'']\<rparr>"

definition unminified :: polyfill where
  "unminified = (Polyfill [ascii ''a''] (ascii ''a''))
     \<lparr>config := empty_config\<lparr>build := Some \<lparr>minify = Some False\<rparr>\<rparr>\<rparr>"

text \<open>Its directory, with a source that ends in a source-map comment.\<close>

definition unminified_tree :: fsnode where
  "unminified_tree = Dir [(ascii ''a'', Dir [(ascii ''polyfill.js'',
      File (ascii ''x;'' @ nl @ ascii ''//# sourceMappingURL=x.map''))])]"

text \<open>
  Collaborators that accept every source and leave it as it is, with a parser that knows
  a few config files and a registry that knows a few licenses.
\<close>

definition demo_toml :: "jsstring \<Rightarrow> config option" where
  "demo_toml = map_of
     [([], empty_config),
      (ascii ''aliases = [\"bar\"]'', empty_config\<lparr>cfg_aliases := Some [ascii ''bar'']\<rparr>),
      (ascii ''dependencies = [\"foo\"]'', empty_config\<lparr>cfg_dependencies := Some [ascii ''foo'']\<rparr>),
      (ascii ''licence = \"MIT\"'', empty_config\<lparr>licence := Some (ascii ''MIT'')\<rparr>),
      (ascii ''browsers = { chrome = \"*\", ie = \"*\" }'',
         empty_config\<lparr>browsers := Some [(ascii ''chrome'', ascii ''*''), (ascii ''ie'', ascii ''*'')]\<rparr>)]"

definition demo_spdx :: "jsstring \<Rightarrow> spdx_license option" where
  "demo_spdx = map_of
     [(ascii ''MIT'', \<lparr>license_name = ascii ''MIT License'', OSIApproved = True\<rparr>),
      (ascii ''CC0-1.0'',
         \<lparr>license_name = ascii ''Creative Commons Zero v1.0 Universal'', OSIApproved = False\<rparr>),
      (ascii ''JSON'', \<lparr>license_name = ascii ''JSON License'', OSIApproved = False\<rparr>)]"

definition demo_externals :: externals where
  "demo_externals = \<lparr>platform = Posix, source = ascii ''/polyfills'',
     toml_parse = demo_toml, vm_script = (\<lambda>c. True),
     uglify_polyfill = Some, uglify_detect = Some,
     spdx = demo_spdx, supportedBrowsers = [ascii ''chrome'', ascii ''ie'']\<rparr>"

text \<open>A tree with the one feature \<^verbatim>\<open>Array/of\<close>.\<close>

definition nested_tree :: fsnode where
  "nested_tree = Dir [(ascii ''Array'', Dir [(ascii ''of'',
      Dir [(ascii ''config.toml'', File (ascii ''aliases = [\"bar\"]'')),
           (ascii ''polyfill.js'', File (ascii ''x;''))])])]"

text \<open>
  A feature with a license the registry knows and does not list as OSI approved, and
  \<open>feature n ds as\<close>: a feature in the top-level directory \<open>n\<close> whose config declares the
  dependencies \<open>ds\<close> and the aliases \<open>as\<close>.
\<close>

definition json_licensed :: polyfill where
  "json_licensed = (Polyfill [ascii ''a''] (ascii ''a''))
     \<lparr>config := empty_config\<lparr>license := Some (ascii ''JSON'')\<rparr>\<rparr>"

definition feature :: "string \<Rightarrow> string list \<Rightarrow> string list \<Rightarrow> polyfill" where
  "feature n ds as = (Polyfill [ascii n] (ascii n))
     \<lparr>config := empty_config\<lparr>cfg_dependencies := Some (map ascii ds),
                                cfg_aliases := Some (map ascii as)\<rparr>\<rparr>"

text \<open>A tree with one directory, whose config file has the key \<^verbatim>\<open>licence\<close>.\<close>

definition misspelled_tree :: "string \<Rightarrow> fsnode" where
  "misspelled_tree n =
     Dir [(ascii n, Dir [(ascii ''config.toml'', File (ascii ''licence = \"MIT\"''))])]"

text \<open>
  A source tree after an earlier run: the output directory, an internal feature and a
  directory nested below \<^verbatim>\<open>a\<close> whose name starts with one underscore.
\<close>

definition underscore_entries :: "(jsstring \<times> fsnode) list" where
  "underscore_entries =
     [(ascii ''__dist'', Dir [(ascii ''foo'', Dir [])]),
      (ascii ''_p'', Dir [(ascii ''config.toml'',
                           File (ascii ''browsers = { chrome = \"*\", ie = \"*\" }''))]),
      (ascii ''a'', Dir [(ascii ''_b'', Dir [(ascii ''config.toml'', File [])])])]"

definition underscore_tree :: fsnode where
  "underscore_tree = Dir underscore_entries"

section \<open>Properties\<close>

subsection \<open>Facts used by several properties\<close>

text \<open>No stage of the loading chain touches the name or the path.\<close>

lemma loadConfig_keeps:
  "loadConfig ext fs p = Inr p' \<Longrightarrow>
     name p' = name p \<and> path_absolute p' = path_absolute p \<and> path_relative p' = path_relative p"
  by (auto simp: loadConfig_def split: option.splits sum.splits if_splits)

lemma loadSources_keeps:
  "loadSources ext fs p = Inr p' \<Longrightarrow>
     name p' = name p \<and> path_absolute p' = path_absolute p \<and> path_relative p' = path_relative p"
  by (auto simp: loadSources_def split: option.splits sum.splits if_splits)

lemma updateConfig_keeps:
  "updateConfig p = Inr p' \<Longrightarrow>
     name p' = name p \<and> path_absolute p' = path_absolute p \<and> path_relative p' = path_relative p"
  by (auto simp: updateConfig_def split: option.splits sum.splits if_splits)

lemma load_keeps:
  "load ext fs p = Inr p' \<Longrightarrow>
     name p' = name p \<and> path_absolute p' = path_absolute p \<and> path_relative p' = path_relative p"
  unfolding load_def
  by (auto split: sum.splits dest!: loadConfig_keeps loadSources_keeps updateConfig_keeps)

text \<open>\<^verbatim>\<open>Promise.all\<close> fails when one promise does and keeps the values otherwise.\<close>

lemma promise_all_Inl: "Inl e \<in> set rs \<Longrightarrow> isl (promise_all rs)"
  by (induction rs rule: promise_all.induct) (auto split: sum.splits)

lemma promise_all_Inr: "promise_all rs = Inr vs \<Longrightarrow> rs = map Inr vs"
  by (induction rs arbitrary: vs rule: promise_all.induct) (auto split: sum.splits)

text \<open>The example features and the example tree.\<close>

lemma feature_simps:
  "name (feature n ds as) = map (\<lambda>c. if c = 0x2F \<or> c = 0x5C then 0x2E else c) (ascii n)"
  "dependencies (feature n ds as) = map ascii ds"
  "aliases (feature n ds as) = ascii ''all'' # map ascii as"
  by (simp_all add: feature_def Polyfill_def dependencies_def aliases_def)

lemma nested_load_succeeds:
  "\<not> isl (load demo_externals nested_tree
          (Polyfill [ascii ''Array'', ascii ''of''] (relative Posix [ascii ''Array'', ascii ''of''])))"
  by (simp add: load_def loadConfig_def Polyfill_def nested_tree_def configPath_def readFile_def
      demo_externals_def demo_toml_def ascii_def check_internal_def startsWith_def
      empty_config_def load_detect_def detectPath_def existsSync_def checkLicense_def
      loadSources_def sourcePath_def minifyPolyfill_def minify_disabled_def validateSource_def
      updateConfig_def)

subsection \<open>Minification switched off\<close>

text \<open>
  C1 (as amended). When the build configuration has \<^verbatim>\<open>minify = false\<close>,
  \<^verbatim>\<open>minifyPolyfill\<close> succeeds whatever the validator and the minifier would say: the raw
  variant is a newline, the header comment \<^verbatim>\<open>// <name>\<close>, a newline, the source as it
  is and a final newline; the minified variant is the source as it is and a final newline,
  without the header. \<^verbatim>\<open>loadSources\<close> stores these two after \<^verbatim>\<open>removeSourceMaps\<close>.
\<close>

theorem minifyPolyfill_minify_disabled:
  assumes "minify_disabled (config p)"
  shows "minifyPolyfill ext p src =
           Inr \<lparr>raw = nl @ ascii ''// '' @ name p @ nl @ src @ nl, min_src = src @ nl\<rparr>
     \<and> (readFile fs (sourcePath p) = Some src \<longrightarrow>
          loadSources ext fs p =
            Inr (p\<lparr>sources := Some (removeSourceMaps
                   \<lparr>raw = nl @ ascii ''// '' @ name p @ nl @ src @ nl, min_src = src @ nl\<rparr>)\<rparr>))"
  using assms by (simp add: minifyPolyfill_def loadSources_def)

lemma removeSourceMaps_example:
  "removeSourceMaps \<lparr>raw = nl @ ascii ''// a'' @ nl @ ascii ''x;'' @ nl @ ascii ''//# sourceMappingURL=x.map'' @ nl,
                     min_src = ascii ''x;'' @ nl @ ascii ''//# sourceMappingURL=x.map'' @ nl\<rparr>
   = \<lparr>raw = nl @ ascii ''// a'' @ nl @ ascii ''x;'' @ nl @ nl, min_src = ascii ''x;'' @ nl @ nl\<rparr>"
  by (simp add: removeSourceMaps_def ascii_def nl_def match_source_map_def is_space_def
        is_line_terminator_def)

theorem minifyPolyfill_minify_disabled_witness:
  "minify_disabled (config unminified)
   \<and> minifyPolyfill strict_externals unminified (ascii ''x'') =
       Inr \<lparr>raw = nl @ ascii ''// a'' @ nl @ ascii ''x'' @ nl, min_src = ascii ''x'' @ nl\<rparr>
   \<and> readFile unminified_tree (sourcePath unminified)
       = Some (ascii ''x;'' @ nl @ ascii ''//# sourceMappingURL=x.map'')
   \<and> map_sum id sources (loadSources strict_externals unminified_tree unminified)
       = Inr (Some \<lparr>raw = nl @ ascii ''// a'' @ nl @ ascii ''x;'' @ nl @ nl,
                     min_src = ascii ''x;'' @ nl @ nl\<rparr>)"
proof -
  have h: "minify_disabled (config unminified)"
    by (simp add: minify_disabled_def unminified_def empty_config_def)
  have n: "name unminified = ascii ''a''"
    by (simp add: unminified_def Polyfill_def ascii_def)
  have r: "readFile unminified_tree (sourcePath unminified)
       = Some (ascii ''x;'' @ nl @ ascii ''//# sourceMappingURL=x.map'')"
    by (simp add: unminified_tree_def sourcePath_def unminified_def Polyfill_def readFile_def)
  note t = minifyPolyfill_minify_disabled [OF h, where ext = strict_externals]
  have a: "minifyPolyfill strict_externals unminified (ascii ''x'') =
       Inr \<lparr>raw = nl @ ascii ''// a'' @ nl @ ascii ''x'' @ nl, min_src = ascii ''x'' @ nl\<rparr>"
    using t [of "ascii ''x''" unminified_tree] by (simp add: n ascii_def)
  have b: "loadSources strict_externals unminified_tree unminified =
            Inr (unminified\<lparr>sources := Some (removeSourceMaps
                   \<lparr>raw = nl @ ascii ''// '' @ name unminified @ nl
                            @ (ascii ''x;'' @ nl @ ascii ''//# sourceMappingURL=x.map'') @ nl,
                     min_src = (ascii ''x;'' @ nl @ ascii ''//# sourceMappingURL=x.map'') @ nl\<rparr>)\<rparr>)"
    using t [of "ascii ''x;'' @ nl @ ascii ''//# sourceMappingURL=x.map''" unminified_tree] r
    by blast
  have c: "map_sum id sources (loadSources strict_externals unminified_tree unminified)
       = Inr (Some \<lparr>raw = nl @ ascii ''// a'' @ nl @ ascii ''x;'' @ nl @ nl,
                     min_src = ascii ''x;'' @ nl @ nl\<rparr>)"
    unfolding b n using removeSourceMaps_example by (simp add: ascii_def)
  show ?thesis using h a r c by simp
qed

text \<open>C1 as stated fails: with minification off the minified variant is not the raw one.\<close>

theorem minifyPolyfill_min_differs_from_raw:
  "minify_disabled (config unminified) \<and>
   map_sum id (\<lambda>s. min_src s = raw s) (minifyPolyfill strict_externals unminified (ascii ''x''))
     = Inr False"
  by (simp add: minify_disabled_def unminified_def empty_config_def minifyPolyfill_def
        Polyfill_def ascii_def nl_def)

subsection \<open>The size field\<close>

lemma byte_length_ascii: "list_all (\<lambda>c. c < 0x80) s \<Longrightarrow> byte_length s = length s"
proof (induction s rule: byte_length.induct)
  case 1
  then show ?case by simp
next
  case (2 c)
  then show ?case by (simp add: unit_bytes_def)
next
  case (3 c d cs)
  from 3(3) have c: "c < 0x80" and rest: "list_all (\<lambda>c. c < 0x80) (d # cs)"
    by simp_all
  have "\<not> 0xD800 \<le> c"
    using c by (simp add: word_less_def word_le_def)
  then show ?case
    using 3(2) c rest by (simp add: unit_bytes_def)
qed

lemma load_sources_loaded:
  "load ext fs p = Inr q \<Longrightarrow>
     \<exists>s. sources q = Some s \<and> size_field (config q) = Some (length (min_src s))"
  by (auto simp: load_def loadSources_def updateConfig_def split: sum.splits option.splits)

text \<open>A string is never longer than its encoding, and shorter once a unit is not ASCII.\<close>

lemma unit_bytes_pos: "1 \<le> unit_bytes c"
  by (simp add: unit_bytes_def)

lemma byte_length_pair:
  "0xD800 \<le> c \<and> c \<le> 0xDBFF \<and> 0xDC00 \<le> d \<and> d \<le> 0xDFFF
     \<Longrightarrow> byte_length (c # d # cs) = 4 + byte_length cs"
  by simp

lemma byte_length_single:
  "\<not> (0xD800 \<le> c \<and> c \<le> 0xDBFF \<and> 0xDC00 \<le> d \<and> d \<le> 0xDFFF)
     \<Longrightarrow> byte_length (c # d # cs) = unit_bytes c + byte_length (d # cs)"
  unfolding byte_length.simps by (rule if_not_P)

lemma length_le_byte_length: "length s \<le> byte_length s"
proof (induction s rule: byte_length.induct)
  case 1
  then show ?case by simp
next
  case (2 c)
  then show ?case using unit_bytes_pos [of c] by simp
next
  case (3 c d cs)
  show ?case
  proof (cases "0xD800 \<le> c \<and> c \<le> 0xDBFF \<and> 0xDC00 \<le> d \<and> d \<le> 0xDFFF")
    case True
    have "length cs \<le> byte_length cs" using 3(1) True by blast
    then show ?thesis unfolding byte_length_pair [OF True] by simp
  next
    case False
    have "length (d # cs) \<le> byte_length (d # cs)" using 3(2) False by blast
    then show ?thesis
      unfolding byte_length_single [OF False] using unit_bytes_pos [of c] by simp
  qed
qed

lemma byte_length_non_ascii:
  "\<not> list_all (\<lambda>c. c < 0x80) s \<Longrightarrow> length s < byte_length s"
proof (induction s rule: byte_length.induct)
  case 1
  then show ?case by simp
next
  case (2 c)
  then show ?case by (simp add: unit_bytes_def)
next
  case (3 c d cs)
  show ?case
  proof (cases "0xD800 \<le> c \<and> c \<le> 0xDBFF \<and> 0xDC00 \<le> d \<and> d \<le> 0xDFFF")
    case True
    show ?thesis
      unfolding byte_length_pair [OF True] using length_le_byte_length [of cs] by simp
  next
    case False
    show ?thesis
    proof (cases "c < 0x80")
      case True
      then have "\<not> list_all (\<lambda>c. c < 0x80) (d # cs)" using 3(3) by simp
      then have "length (d # cs) < byte_length (d # cs)" using 3(2) False by blast
      then show ?thesis
        unfolding byte_length_single [OF False] using unit_bytes_pos [of c] by simp
    next
      case c: False
      then have "2 \<le> unit_bytes c" by (simp add: unit_bytes_def)
      then show ?thesis
        unfolding byte_length_single [OF False] using length_le_byte_length [of "d # cs"] by simp
    qed
  qed
qed

lemma size_against_bytes:
  "(list_all (\<lambda>c. c < 0x80) s \<longrightarrow> Some (length s) = Some (byte_length s))
   \<and> (\<not> list_all (\<lambda>c. c < 0x80) s \<longrightarrow> (\<exists>n. Some (length s) = Some n \<and> n < byte_length s))"
  using byte_length_ascii [of s] byte_length_non_ascii [of s] by simp

text \<open>
  C2 (as amended). On a feature whose sources are loaded, \<^verbatim>\<open>updateConfig\<close> sets the
  size field to the length of the minified source in UTF-16 code units; that is its byte
  length when every code unit is ASCII, and it is smaller than the byte length when some
  code unit is not. Every feature that comes out of the loading chain has its sources and
  that size.
\<close>

theorem updateConfig_size:
  "(\<forall>s. sources p = Some s \<longrightarrow>
      (\<exists>p'. updateConfig p = Inr p'
           \<and> size_field (config p') = Some (length (min_src s))
           \<and> (list_all (\<lambda>c. c < 0x80) (min_src s)
                \<longrightarrow> size_field (config p') = Some (byte_length (min_src s)))
           \<and> (\<not> list_all (\<lambda>c. c < 0x80) (min_src s)
                \<longrightarrow> (\<exists>n. size_field (config p') = Some n \<and> n < byte_length (min_src s)))))
   \<and> (\<forall>q. load ext fs p = Inr q \<longrightarrow>
         (\<exists>s. sources q = Some s \<and> size_field (config q) = Some (length (min_src s))
            \<and> (list_all (\<lambda>c. c < 0x80) (min_src s)
                \<longrightarrow> size_field (config q) = Some (byte_length (min_src s)))
            \<and> (\<not> list_all (\<lambda>c. c < 0x80) (min_src s)
                \<longrightarrow> (\<exists>n. size_field (config q) = Some n \<and> n < byte_length (min_src s)))))"
proof (intro conjI allI impI)
  fix s assume s: "sources p = Some s"
  let ?p' = "p\<lparr>config := (config p)\<lparr>size_field := Some (length (min_src s))\<rparr>\<rparr>"
  have u: "updateConfig p = Inr ?p'" using s by (simp add: updateConfig_def)
  have z: "size_field (config ?p') = Some (length (min_src s))" by simp
  show "\<exists>p'. updateConfig p = Inr p'
           \<and> size_field (config p') = Some (length (min_src s))
           \<and> (list_all (\<lambda>c. c < 0x80) (min_src s)
                \<longrightarrow> size_field (config p') = Some (byte_length (min_src s)))
           \<and> (\<not> list_all (\<lambda>c. c < 0x80) (min_src s)
                \<longrightarrow> (\<exists>n. size_field (config p') = Some n \<and> n < byte_length (min_src s)))"
    using size_against_bytes [of "min_src s"] unfolding u by simp
next
  fix q assume "load ext fs p = Inr q"
  then obtain s where s: "sources q = Some s" "size_field (config q) = Some (length (min_src s))"
    using load_sources_loaded by blast
  show "\<exists>s. sources q = Some s \<and> size_field (config q) = Some (length (min_src s))
            \<and> (list_all (\<lambda>c. c < 0x80) (min_src s)
                \<longrightarrow> size_field (config q) = Some (byte_length (min_src s)))
            \<and> (\<not> list_all (\<lambda>c. c < 0x80) (min_src s)
                \<longrightarrow> (\<exists>n. size_field (config q) = Some n \<and> n < byte_length (min_src s)))"
    using size_against_bytes [of "min_src s"] unfolding s by simp
qed


theorem updateConfig_size_witness:
  "sources (unminified\<lparr>sources := Some \<lparr>raw = ascii ''x;'', min_src = ascii ''x;''\<rparr>\<rparr>)
     = Some \<lparr>raw = ascii ''x;'', min_src = ascii ''x;''\<rparr>
   \<and> list_all (\<lambda>c. c < 0x80) (ascii ''x;'')
   \<and> map_sum id (\<lambda>p. size_field (config p))
        (updateConfig (unminified\<lparr>sources := Some \<lparr>raw = ascii ''x;'', min_src = ascii ''x;''\<rparr>\<rparr>))
       = Inr (Some (byte_length (ascii ''x;'')))
   \<and> \<not> list_all (\<lambda>c. c < 0x80) [0x78, 0xE9 :: jschar]
   \<and> map_sum id (\<lambda>p. size_field (config p))
        (updateConfig (unminified\<lparr>sources := Some \<lparr>raw = [0x78, 0xE9], min_src = [0x78, 0xE9]\<rparr>\<rparr>))
       = Inr (Some 2)
   \<and> 2 < byte_length [0x78, 0xE9]
   \<and> map_sum id (\<lambda>q. size_field (config q))
        (load demo_externals nested_tree
           (Polyfill [ascii ''Array'', ascii ''of''] (relative Posix [ascii ''Array'', ascii ''of''])))
       = Inr (Some 2)"
proof -
  let ?p = "unminified\<lparr>sources := Some \<lparr>raw = ascii ''x;'', min_src = ascii ''x;''\<rparr>\<rparr>"
  let ?e = "unminified\<lparr>sources := Some \<lparr>raw = [0x78, 0xE9], min_src = [0x78, 0xE9]\<rparr>\<rparr>"
  let ?f = "Polyfill [ascii ''Array'', ascii ''of''] (relative Posix [ascii ''Array'', ascii ''of''])"
  have h: "sources ?p = Some \<lparr>raw = ascii ''x;'', min_src = ascii ''x;''\<rparr>"
    by simp
  have a: "list_all (\<lambda>c. c < 0x80) (ascii ''x;'')"
    by (simp add: ascii_def)
  have u: "map_sum id (\<lambda>p. size_field (config p)) (updateConfig ?p)
       = Inr (Some (byte_length (ascii ''x;'')))"
  proof -
    have "\<exists>p'. updateConfig ?p = Inr p'
           \<and> size_field (config p') = Some (length (ascii ''x;''))
           \<and> (list_all (\<lambda>c. c < 0x80) (ascii ''x;'')
                \<longrightarrow> size_field (config p') = Some (byte_length (ascii ''x;'')))"
      using updateConfig_size [of ?p demo_externals nested_tree] h by auto
    then obtain p' where "updateConfig ?p = Inr p'"
      "size_field (config p') = Some (byte_length (ascii ''x;''))"
      using a by blast
    then show ?thesis by simp
  qed
  have he: "sources ?e = Some \<lparr>raw = [0x78, 0xE9], min_src = [0x78, 0xE9]\<rparr>"
    by simp
  have b: "\<not> list_all (\<lambda>c. c < 0x80) [0x78, 0xE9 :: jschar]"
    by simp
  have v: "map_sum id (\<lambda>p. size_field (config p)) (updateConfig ?e) = Inr (Some 2)
       \<and> 2 < byte_length [0x78, 0xE9]"
  proof -
    have "\<exists>p'. updateConfig ?e = Inr p'
           \<and> size_field (config p') = Some (length [0x78, 0xE9 :: jschar])
           \<and> (\<not> list_all (\<lambda>c. c < 0x80) [0x78, 0xE9 :: jschar]
                \<longrightarrow> (\<exists>n. size_field (config p') = Some n \<and> n < byte_length [0x78, 0xE9]))"
      using updateConfig_size [of ?e demo_externals nested_tree] he by auto
    then obtain p' n where "updateConfig ?e = Inr p'"
      "size_field (config p') = Some (length [0x78, 0xE9 :: jschar])"
      "size_field (config p') = Some n" "n < byte_length [0x78, 0xE9]"
      using b by blast
    then show ?thesis by simp
  qed
  obtain q where q: "load demo_externals nested_tree ?f = Inr q"
    using nested_load_succeeds by (cases "load demo_externals nested_tree ?f") auto
  then obtain s where s: "sources q = Some s" "size_field (config q) = Some (length (min_src s))"
    using updateConfig_size [of ?f demo_externals nested_tree] by blast
  have "map_sum id sources (load demo_externals nested_tree ?f)
      = Inr (Some \<lparr>raw = nl @ ascii ''// Array.of'' @ nl @ ascii ''x;'', min_src = ascii ''x;''\<rparr>)"
    by (simp add: load_def loadConfig_def Polyfill_def nested_tree_def configPath_def readFile_def
      demo_externals_def demo_toml_def ascii_def check_internal_def startsWith_def
      empty_config_def load_detect_def detectPath_def existsSync_def checkLicense_def
      loadSources_def sourcePath_def minifyPolyfill_def minify_disabled_def validateSource_def
      updateConfig_def removeSourceMaps_def nl_def match_source_map_def)
  then have "min_src s = ascii ''x;''"
    using q s(1) by simp
  then have "size_field (config q) = Some 2"
    using s(2) by (simp add: ascii_def)
  then show ?thesis
    using h a u b v q by simp
qed

text \<open>
  C2 as stated fails: the one code unit \<open>0xE9\<close> (e with an acute accent) gives size 1,
  and its UTF-8 encoding has two bytes.
\<close>

theorem updateConfig_size_not_bytes:
  "map_sum id (\<lambda>p. size_field (config p))
      (updateConfig (unminified\<lparr>sources := Some \<lparr>raw = [0xE9], min_src = [0xE9]\<rparr>\<rparr>)) = Inr (Some 1)
   \<and> byte_length [0xE9] = 2"
  by (simp add: updateConfig_def unit_bytes_def)

subsection \<open>Missing dependencies\<close>

lemma check_dependencies_find:
  "check_dependencies all p ds =
     (case find (\<lambda>d. d \<notin> name ` set all) ds of
        None \<Rightarrow> Inr ()
      | Some d \<Rightarrow> Inl (missing_dependency (name p) d))"
  by (induction ds) (auto simp: list_ex_iff)

lemma find_append_cases:
  "find P (xs @ ys) = (case find P xs of None \<Rightarrow> find P ys | Some x \<Rightarrow> Some x)"
  by (induction xs) auto

lemma find_map_pair:
  "find (\<lambda>(q, d). Q d) (map (\<lambda>d. (p, d)) ds) = map_option (\<lambda>d. (p, d)) (find Q ds)"
  by (induction ds) auto

lemma check_each_find:
  "check_each all ps =
     (case find (\<lambda>(p, d). d \<notin> name ` set all) (declared_pairs ps) of
        None \<Rightarrow> Inr ()
      | Some (q, d) \<Rightarrow> Inl (missing_dependency (name q) d))"
proof (induction ps)
  case Nil
  then show ?case by (simp add: declared_pairs_def)
next
  case (Cons p ps)
  have dp: "declared_pairs (p # ps) = map (\<lambda>d. (p, d)) (dependencies p) @ declared_pairs ps"
    by (simp add: declared_pairs_def)
  show ?case
    using Cons
    by (simp add: dp find_append_cases find_map_pair check_dependencies_find
          split: option.splits)
qed

lemma checkDependenciesExist_first_violation:
  "checkDependenciesExist ps =
     (case first_violation ps of
        None \<Rightarrow> Inr ()
      | Some (q, d) \<Rightarrow> Inl (missing_dependency (name q) d))"
  by (simp add: checkDependenciesExist_def first_violation_def check_each_find)

lemma missing_dependency_names_dependent:
  "sublist n (message (missing_dependency n d))"
  unfolding missing_dependency_def message.simps by (rule sublist_appendI)

lemma missing_dependency_names_dependency:
  "sublist d (message (missing_dependency n d))"
proof -
  have "sublist d ((ascii ''Polyfill '' @ n @ ascii '' depends on '') @ d
       @ ascii '', which does not exist within the polyfill-service. Recommended to either add the missing polyfill or remove the dependency.'')"
    by (rule sublist_appendI)
  then show ?thesis
    by (simp add: missing_dependency_def)
qed

lemma first_violation_exists:
  assumes "p \<in> set ps" "d \<in> set (dependencies p)" "d \<notin> name ` set ps"
  shows "\<exists>q m. first_violation ps = Some (q, m)"
proof -
  have "(p, d) \<in> set (declared_pairs ps)"
    using assms by (auto simp: declared_pairs_def)
  then have "find (\<lambda>(p, d). d \<notin> name ` set ps) (declared_pairs ps) \<noteq> None"
    using assms(3) by (auto simp: find_None_iff)
  then show ?thesis by (auto simp: first_violation_def)
qed

text \<open>
  C3 (as amended). When some feature declares a dependency that is the name of no feature,
  \<^verbatim>\<open>checkDependenciesExist\<close> rejects with the message built from the first such pair
  in the order of the features and of their dependencies; the message contains the name of
  the dependent and the missing name. The pipeline fails and nothing is written. Its error
  is that message when the cycle check, which runs first, passes; when the cycle check
  rejects, the pipeline's error is the rejection of the cycle check.
\<close>

theorem missing_dependency_fails:
  assumes "p \<in> set polyfills" "d \<in> set (dependencies p)" "d \<notin> name ` set polyfills"
  shows "\<exists>q m e. first_violation polyfills = Some (q, m)
           \<and> checkDependenciesExist polyfills = Inl e
           \<and> e = missing_dependency (name q) m
           \<and> sublist (name q) (message e) \<and> sublist m (message e)
           \<and> isl (fst (validate_and_write ext polyfills))
           \<and> snd (validate_and_write ext polyfills) = []
           \<and> (checkForCircularDependencies polyfills = Inr ()
                \<longrightarrow> validate_and_write ext polyfills = (Inl e, []))
           \<and> (\<forall>c. checkForCircularDependencies polyfills = Inl c
                \<longrightarrow> validate_and_write ext polyfills = (Inl c, []))
           \<and> (\<forall>fs ds. promise_all (map (load ext fs) (candidates ext fs ds)) = Inr polyfills
                \<longrightarrow> isl (fst (run_from ext fs ds)) \<and> snd (run_from ext fs ds) = []
                    \<and> (checkForCircularDependencies polyfills = Inr ()
                          \<longrightarrow> run_from ext fs ds = (Inl e, []))
                    \<and> (\<forall>c. checkForCircularDependencies polyfills = Inl c
                          \<longrightarrow> run_from ext fs ds = (Inl c, [])))"
proof -
  obtain q m where v: "first_violation polyfills = Some (q, m)"
    using first_violation_exists [OF assms] by blast
  let ?e = "missing_dependency (name q) m"
  have c: "checkDependenciesExist polyfills = Inl ?e"
    using v by (simp add: checkDependenciesExist_first_violation)
  have w: "isl (fst (validate_and_write ext polyfills)) \<and> snd (validate_and_write ext polyfills) = []"
    using c by (simp add: validate_and_write_def split: sum.splits)
  have t: "checkForCircularDependencies polyfills = Inr ()
                \<longrightarrow> validate_and_write ext polyfills = (Inl ?e, [])"
    using c by (simp add: validate_and_write_def)
  have k: "\<forall>c. checkForCircularDependencies polyfills = Inl c
                \<longrightarrow> validate_and_write ext polyfills = (Inl c, [])"
    by (simp add: validate_and_write_def)
  have r: "\<forall>fs ds. promise_all (map (load ext fs) (candidates ext fs ds)) = Inr polyfills
                \<longrightarrow> isl (fst (run_from ext fs ds)) \<and> snd (run_from ext fs ds) = []
                    \<and> (checkForCircularDependencies polyfills = Inr ()
                          \<longrightarrow> run_from ext fs ds = (Inl ?e, []))
                    \<and> (\<forall>c. checkForCircularDependencies polyfills = Inl c
                          \<longrightarrow> run_from ext fs ds = (Inl c, []))"
    using w t k by (simp add: run_from_def)
  have n1: "sublist (name q) (message ?e)"
    by (rule missing_dependency_names_dependent)
  have n2: "sublist m (message ?e)"
    by (rule missing_dependency_names_dependency)
  have "first_violation polyfills = Some (q, m)
           \<and> checkDependenciesExist polyfills = Inl ?e
           \<and> ?e = missing_dependency (name q) m
           \<and> sublist (name q) (message ?e) \<and> sublist m (message ?e)
           \<and> isl (fst (validate_and_write ext polyfills))
           \<and> snd (validate_and_write ext polyfills) = []
           \<and> (checkForCircularDependencies polyfills = Inr ()
                \<longrightarrow> validate_and_write ext polyfills = (Inl ?e, []))
           \<and> (\<forall>c. checkForCircularDependencies polyfills = Inl c
                \<longrightarrow> validate_and_write ext polyfills = (Inl c, []))
           \<and> (\<forall>fs ds. promise_all (map (load ext fs) (candidates ext fs ds)) = Inr polyfills
                \<longrightarrow> isl (fst (run_from ext fs ds)) \<and> snd (run_from ext fs ds) = []
                    \<and> (checkForCircularDependencies polyfills = Inr ()
                          \<longrightarrow> run_from ext fs ds = (Inl ?e, []))
                    \<and> (\<forall>c. checkForCircularDependencies polyfills = Inl c
                          \<longrightarrow> run_from ext fs ds = (Inl c, [])))"
    by (intro conjI v c refl n1 n2 conjunct1 [OF w] conjunct2 [OF w] t k r)
  then show ?thesis by (intro exI)
qed

text \<open>The cycle check on two lists of features.\<close>

lemma acyclic_example:
  "checkForCircularDependencies [feature ''foo'' [] [], feature ''baz'' [''foo'', ''qux''] []] = Inr ()"
  by (simp add: checkForCircularDependencies_def dependency_graph_def feature_simps toposort_def
        has_pending_predecessor_def ascii_def)

lemma cyclic_example:
  "checkForCircularDependencies [feature ''A'' [''A'', ''zz''] []]
     = Inl (circle_in_graph (ascii ''Error: Cyclic dependency''))"
  by (simp add: checkForCircularDependencies_def dependency_graph_def feature_simps toposort_def
        has_pending_predecessor_def ascii_def)


theorem missing_dependency_fails_witness:
  "feature ''baz'' [''foo'', ''qux''] [] \<in> set [feature ''foo'' [] [], feature ''baz'' [''foo'', ''qux''] []]
   \<and> ascii ''qux'' \<in> set (dependencies (feature ''baz'' [''foo'', ''qux''] []))
   \<and> ascii ''qux'' \<notin> name ` set [feature ''foo'' [] [], feature ''baz'' [''foo'', ''qux''] []]
   \<and> checkForCircularDependencies [feature ''foo'' [] [], feature ''baz'' [''foo'', ''qux''] []] = Inr ()
   \<and> checkDependenciesExist [feature ''foo'' [] [], feature ''baz'' [''foo'', ''qux''] []]
       = Inl (missing_dependency (ascii ''baz'') (ascii ''qux''))
   \<and> validate_and_write demo_externals [feature ''foo'' [] [], feature ''baz'' [''foo'', ''qux''] []]
       = (Inl (missing_dependency (ascii ''baz'') (ascii ''qux'')), [])"
proof -
  let ?ps = "[feature ''foo'' [] [], feature ''baz'' [''foo'', ''qux''] []]"
  have a: "feature ''baz'' [''foo'', ''qux''] [] \<in> set ?ps" by simp
  have b: "ascii ''qux'' \<in> set (dependencies (feature ''baz'' [''foo'', ''qux''] []))"
    by (simp add: feature_simps)
  have c: "ascii ''qux'' \<notin> name ` set ?ps"
    by (simp add: feature_simps ascii_def)
  have v: "first_violation ?ps = Some (feature ''baz'' [''foo'', ''qux''] [], ascii ''qux'')"
    by (simp add: first_violation_def declared_pairs_def feature_simps ascii_def)
  have n: "name (feature ''baz'' [''foo'', ''qux''] []) = ascii ''baz''"
    by (simp add: feature_simps ascii_def)
  obtain q m e where t: "first_violation ?ps = Some (q, m)"
      "checkDependenciesExist ?ps = Inl e" "e = missing_dependency (name q) m"
      "checkForCircularDependencies ?ps = Inr ()
         \<longrightarrow> validate_and_write demo_externals ?ps = (Inl e, [])"
    using missing_dependency_fails [OF a b c, of demo_externals] by blast
  have e: "e = missing_dependency (ascii ''baz'') (ascii ''qux'')"
    using t(1,3) v n by simp
  show ?thesis
    using a b c acyclic_example t(2,4) unfolding e by simp
qed

text \<open>
  C3 as stated fails: the feature \<^verbatim>\<open>A\<close> depends on itself and on \<^verbatim>\<open>zz\<close>, which no
  feature is called; the cycle check rejects first, and the error of the run does not name
  the missing dependency.
\<close>

theorem missing_dependency_behind_cycle:
  "feature ''A'' [''A'', ''zz''] [] \<in> set [feature ''A'' [''A'', ''zz''] []]
   \<and> ascii ''zz'' \<in> set (dependencies (feature ''A'' [''A'', ''zz''] []))
   \<and> ascii ''zz'' \<notin> name ` set [feature ''A'' [''A'', ''zz''] []]
   \<and> validate_and_write demo_externals [feature ''A'' [''A'', ''zz''] []]
       = (Inl (circle_in_graph (ascii ''Error: Cyclic dependency'')), [])
   \<and> \<not> sublist (ascii ''zz'') (message (circle_in_graph (ascii ''Error: Cyclic dependency'')))"
proof -
  have b: "ascii ''zz'' \<in> set (dependencies (feature ''A'' [''A'', ''zz''] []))"
    by (simp add: feature_simps)
  have c: "ascii ''zz'' \<notin> name ` set [feature ''A'' [''A'', ''zz''] []]"
    by (simp add: feature_simps ascii_def)
  have w: "validate_and_write demo_externals [feature ''A'' [''A'', ''zz''] []]
       = (Inl (circle_in_graph (ascii ''Error: Cyclic dependency'')), [])"
    by (simp add: validate_and_write_def cyclic_example)
  have s: "\<not> sublist (ascii ''zz'') (message (circle_in_graph (ascii ''Error: Cyclic dependency'')))"
    by (simp add: circle_in_graph_def ascii_def nl_def sublist_Cons_right)
  show ?thesis using b c w s by simp
qed

subsection \<open>Cycles\<close>

lemma dependency_graph_fold:
  "fold (\<lambda>p graph. fold (\<lambda>dependency g. g @ [(dependency, name p)]) (dependencies p) graph) ps g0
     = g0 @ concat (map (\<lambda>p. map (\<lambda>d. (d, name p)) (dependencies p)) ps)"
proof (induction ps arbitrary: g0)
  case Nil
  then show ?case by simp
next
  case (Cons p ps)
  have inner: "\<And>ds g. fold (\<lambda>dependency g. g @ [(dependency, name p)]) ds g
                 = g @ map (\<lambda>d. (d, name p)) ds"
  proof -
    fix ds g
    show "fold (\<lambda>dependency g. g @ [(dependency, name p)]) ds g = g @ map (\<lambda>d. (d, name p)) ds"
      by (induction ds arbitrary: g) auto
  qed
  show ?case by (simp add: Cons inner)
qed

lemma set_dependency_graph: "set (dependency_graph ps) = edges ps"
  by (auto simp: dependency_graph_def dependency_graph_fold edges_def)

lemma rounds_keep_cycle:
  assumes "C \<noteq> {}" "C \<subseteq> set pending" "\<forall>n\<in>C. \<exists>a\<in>C. (a, n) \<in> set es"
  shows "isl (toposort_rounds k es pending ordered)"
  using assms
proof (induction k arbitrary: pending ordered)
  case 0
  then have "pending \<noteq> []" by auto
  then show ?case by simp
next
  case (Suc k)
  have "C \<subseteq> set (filter (has_pending_predecessor es pending) pending)"
  proof
    fix n assume n: "n \<in> C"
    then obtain a where a: "a \<in> C" "(a, n) \<in> set es" using Suc.prems(3) by blast
    then have "has_pending_predecessor es pending n"
      using Suc.prems(2) by (auto simp: has_pending_predecessor_def list_ex_iff)
    then show "n \<in> set (filter (has_pending_predecessor es pending) pending)"
      using n Suc.prems(2) by auto
  qed
  then show ?case
    using Suc.IH [OF Suc.prems(1) _ Suc.prems(3)] by simp
qed

lemma toposort_cycle:
  assumes "(n, n) \<in> (set es)\<^sup>+"
  shows "isl (toposort es)"
proof -
  define C where "C = {m. (m, n) \<in> (set es)\<^sup>+ \<and> (n, m) \<in> (set es)\<^sup>+}"
  have ne: "C \<noteq> {}" using assms by (auto simp: C_def)
  have sub: "C \<subseteq> set (remdups (concat (map (\<lambda>(a, b). [a, b]) es)))"
  proof
    fix m assume "m \<in> C"
    then have "(m, n) \<in> (set es)\<^sup>+" by (simp add: C_def)
    then obtain b where "(m, b) \<in> set es" by (meson tranclD)
    then show "m \<in> set (remdups (concat (map (\<lambda>(a, b). [a, b]) es)))"
      by force
  qed
  have pred: "\<forall>m\<in>C. \<exists>a\<in>C. (a, m) \<in> set es"
  proof
    fix m assume m: "m \<in> C"
    then have nm: "(n, m) \<in> (set es)\<^sup>+" and mn: "(m, n) \<in> (set es)\<^sup>+" by (simp_all add: C_def)
    from nm obtain a where na: "(n, a) \<in> (set es)\<^sup>*" and am: "(a, m) \<in> set es"
      by (meson tranclD2)
    have an: "(a, n) \<in> (set es)\<^sup>+" using am mn by (meson trancl_into_trancl2)
    have "(n, a) \<in> (set es)\<^sup>+"
      using na assms by (metis rtranclD)
    then have "a \<in> C" using an by (simp add: C_def)
    then show "\<exists>a\<in>C. (a, m) \<in> set es" using am by blast
  qed
  show ?thesis
    unfolding toposort_def Let_def by (rule rounds_keep_cycle [OF ne sub pred])
qed

text \<open>The modelled \<^verbatim>\<open>toposort\<close> orders every acyclic edge list: it throws on cycles only.\<close>

lemma pending_source:
  assumes "acyclic (set es)" "pending \<noteq> []"
  shows "\<exists>n\<in>set pending. \<not> has_pending_predecessor es pending n"
proof -
  let ?r = "set es \<inter> (set pending \<times> set pending)"
  have "finite ?r" by simp
  moreover have "acyclic ?r"
    using assms(1) by (rule acyclic_subset) simp
  ultimately have w: "wf ?r" by (rule finite_acyclic_wf)
  have h: "hd pending \<in> set pending" using assms(2) by simp
  obtain z where z: "z \<in> set pending" and m: "\<And>y. (y, z) \<in> ?r \<Longrightarrow> y \<notin> set pending"
    using wfE_min [OF w h] by metis
  have "\<not> has_pending_predecessor es pending z"
  proof
    assume "has_pending_predecessor es pending z"
    then obtain a where a: "(a, z) \<in> set es" "a \<in> set pending"
      by (auto simp: has_pending_predecessor_def list_ex_iff)
    then have "(a, z) \<in> ?r" using z by simp
    then show False using m a(2) by blast
  qed
  then show ?thesis using z by blast
qed


lemma rounds_acyclic:
  assumes "acyclic (set es)"
  shows "length pending \<le> k \<Longrightarrow> \<not> isl (toposort_rounds k es pending ordered)"
proof (induction k arbitrary: pending ordered)
  case 0
  then show ?case by simp
next
  case (Suc k)
  have "length (filter (has_pending_predecessor es pending) pending) \<le> k"
  proof (cases "pending = []")
    case True
    then show ?thesis by simp
  next
    case False
    then obtain n where n: "n \<in> set pending" "\<not> has_pending_predecessor es pending n"
      using pending_source [OF assms] by blast
    have "length (filter (has_pending_predecessor es pending) pending) < length pending"
      using n by (rule length_filter_less)
    then show ?thesis using Suc.prems by simp
  qed
  then have "\<not> isl (toposort_rounds k es (filter (has_pending_predecessor es pending) pending)
       (ordered @ filter (\<lambda>n. \<not> has_pending_predecessor es pending n) pending))"
    by (rule Suc.IH)
  then show ?case by simp
qed

lemma toposort_acyclic: "acyclic (set es) \<Longrightarrow> \<not> isl (toposort es)"
  unfolding toposort_def Let_def by (rule rounds_acyclic) simp_all

lemma toposort_fails_iff: "isl (toposort es) \<longleftrightarrow> (\<exists>n. (n, n) \<in> (set es)\<^sup>+)"
proof
  assume "isl (toposort es)"
  then have "\<not> acyclic (set es)"
    using toposort_acyclic by blast
  then show "\<exists>n. (n, n) \<in> (set es)\<^sup>+"
    by (simp add: acyclic_def)
next
  assume "\<exists>n. (n, n) \<in> (set es)\<^sup>+"
  then show "isl (toposort es)"
    using toposort_cycle by blast
qed

text \<open>
  C4. When the edges dependency \<rightarrow> dependent of the loaded features contain a cycle,
  \<^verbatim>\<open>toposort\<close> throws, \<^verbatim>\<open>checkForCircularDependencies\<close> rejects with the circle
  message, and the pipeline ends with that error and has made no directory and written no
  file: the check is the first step after loading.
\<close>

theorem cycle_fails_before_output:
  assumes "(n, n) \<in> (edges polyfills)\<^sup>+"
  shows "\<exists>m. toposort (dependency_graph polyfills) = Inl m
           \<and> checkForCircularDependencies polyfills = Inl (circle_in_graph m)
           \<and> validate_and_write ext polyfills = (Inl (circle_in_graph m), [])
           \<and> (\<forall>fs ds. promise_all (map (load ext fs) (candidates ext fs ds)) = Inr polyfills
                \<longrightarrow> run_from ext fs ds = (Inl (circle_in_graph m), []))"
proof -
  have "isl (toposort (dependency_graph polyfills))"
    using assms by (intro toposort_cycle) (simp add: set_dependency_graph)
  then obtain m where m: "toposort (dependency_graph polyfills) = Inl m"
    by (cases "toposort (dependency_graph polyfills)") auto
  then have e: "checkForCircularDependencies polyfills = Inl (circle_in_graph m)"
    by (simp add: checkForCircularDependencies_def)
  then have w: "validate_and_write ext polyfills = (Inl (circle_in_graph m), [])"
    by (simp add: validate_and_write_def)
  then show ?thesis
    using m e by (auto simp: run_from_def)
qed

theorem cycle_fails_before_output_witness:
  "(ascii ''A'', ascii ''A'') \<in> (edges [feature ''A'' [''B''] [], feature ''B'' [''A''] []])\<^sup>+
   \<and> isl (checkForCircularDependencies [feature ''A'' [''B''] [], feature ''B'' [''A''] []])
   \<and> snd (validate_and_write demo_externals [feature ''A'' [''B''] [], feature ''B'' [''A''] []]) = []"
proof -
  let ?ps = "[feature ''A'' [''B''] [], feature ''B'' [''A''] []]"
  have ab: "(ascii ''A'', ascii ''B'') \<in> edges ?ps"
    by (simp add: edges_def feature_simps ascii_def)
  have ba: "(ascii ''B'', ascii ''A'') \<in> edges ?ps"
    by (simp add: edges_def feature_simps ascii_def)
  have c: "(ascii ''A'', ascii ''A'') \<in> (edges ?ps)\<^sup>+"
    using ab ba by (meson r_into_trancl' trancl_trans)
  show ?thesis
    using c cycle_fails_before_output [OF c, of demo_externals] by auto
qed

subsection \<open>The alias index\<close>







text \<open>
  An alias that \<^verbatim>\<open>Object.prototype\<close> defines stops the run: \<^verbatim>\<open>aliases[alias]\<close> is the
  inherited function, which the spread rejects.
\<close>

lemma alias_constructor_throws:
  "writeAliasFile demo_externals [feature ''foo'' [] [''constructor'']] (destination demo_externals)
     = Inl (TypeError (ascii ''aliases[alias] is not iterable''))"
  by (simp add: writeAliasFile_def feature_simps object_prototype_keys_def ascii_def)

subsection \<open>The misspelled license key\<close>

lemma incorrect_spelling_names:
  "sublist n (ascii ''Incorrect spelling of license property in '' @ n)"
  using sublist_appendI [of n "ascii ''Incorrect spelling of license property in ''" "[]"] by simp

lemma check_internal_error:
  "check_internal ext p cfg = Inl e \<Longrightarrow> browsers cfg \<noteq> None \<Longrightarrow> \<exists>m. e = Error m \<and> sublist (name p) m"
  by (auto simp: check_internal_def split: if_splits list.splits option.splits
           intro: sublist_appendI)

lemma check_internal_passes:
  "\<not> startsWith (path_relative p) (ascii ''_'')
   \<or> (\<exists>tbl. browsers cfg = Some tbl
         \<and> list_all (\<lambda>b. map_of tbl b = Some (ascii ''*'')) (supportedBrowsers ext))
   \<Longrightarrow> check_internal ext p cfg = Inr ()"
  by (auto simp: check_internal_def split: list.splits)

text \<open>
  A config that parses and has the key \<^verbatim>\<open>licence\<close> makes \<^verbatim>\<open>loadConfig\<close> fail,
  whatever else it holds (a \<^verbatim>\<open>license\<close> key or none), and with it the feature's chain
  and the run, before anything is written. The error is the misspelling error, which names
  the feature, when the feature is not internal or its \<^verbatim>\<open>browsers\<close> table covers every
  supported browser; for an internal feature with an incomplete \<^verbatim>\<open>browsers\<close> table it
  is the error of that earlier check, which names the feature as well.
\<close>

theorem misspelled_licence_fails:
  assumes "readFile fs (configPath p) = Some data"
    and "toml_parse ext data = Some cfg"
    and "licence cfg \<noteq> None"
  shows "isl (loadConfig ext fs p) \<and> isl (load ext fs p)
     \<and> (\<not> startsWith (path_relative p) (ascii ''_'')
          \<or> (\<exists>tbl. browsers cfg = Some tbl
                \<and> list_all (\<lambda>b. map_of tbl b = Some (ascii ''*'')) (supportedBrowsers ext))
         \<longrightarrow> loadConfig ext fs p
               = Inl (Error (ascii ''Incorrect spelling of license property in '' @ name p)))
     \<and> ((startsWith (path_relative p) (ascii ''_'') \<longrightarrow> browsers cfg \<noteq> None)
         \<longrightarrow> (\<exists>m. loadConfig ext fs p = Inl (Error m) \<and> sublist (name p) m))
     \<and> (p \<in> set (candidates ext fs ds)
         \<longrightarrow> isl (fst (run_from ext fs ds)) \<and> snd (run_from ext fs ds) = [])"
proof -
  have lc: "loadConfig ext fs p =
      (case check_internal ext p cfg of
         Inl e \<Rightarrow> Inl e
       | Inr u \<Rightarrow> Inl (Error (ascii ''Incorrect spelling of license property in '' @ name p)))"
    using assms by (simp add: loadConfig_def split: sum.splits)
  have a: "isl (loadConfig ext fs p)"
    by (simp add: lc split: sum.splits)
  then have b: "isl (load ext fs p)"
    by (cases "loadConfig ext fs p") (auto simp: load_def)
  have c: "\<not> startsWith (path_relative p) (ascii ''_'')
          \<or> (\<exists>tbl. browsers cfg = Some tbl
                \<and> list_all (\<lambda>b. map_of tbl b = Some (ascii ''*'')) (supportedBrowsers ext))
         \<longrightarrow> loadConfig ext fs p
               = Inl (Error (ascii ''Incorrect spelling of license property in '' @ name p))"
    using check_internal_passes [of p cfg ext] by (auto simp: lc)
  have d: "(startsWith (path_relative p) (ascii ''_'') \<longrightarrow> browsers cfg \<noteq> None)
         \<longrightarrow> (\<exists>m. loadConfig ext fs p = Inl (Error m) \<and> sublist (name p) m)"
  proof
    assume h: "startsWith (path_relative p) (ascii ''_'') \<longrightarrow> browsers cfg \<noteq> None"
    show "\<exists>m. loadConfig ext fs p = Inl (Error m) \<and> sublist (name p) m"
    proof (cases "check_internal ext p cfg")
      case (Inl e)
      then have "startsWith (path_relative p) (ascii ''_'')"
        by (auto simp: check_internal_def split: if_splits)
      then have "browsers cfg \<noteq> None" using h by blast
      then show ?thesis
        using check_internal_error [OF Inl] Inl by (auto simp: lc)
    next
      case (Inr u)
      then show ?thesis
        using incorrect_spelling_names [of "name p"] by (auto simp: lc)
    qed
  qed
  have e: "p \<in> set (candidates ext fs ds)
         \<longrightarrow> isl (fst (run_from ext fs ds)) \<and> snd (run_from ext fs ds) = []"
  proof
    assume "p \<in> set (candidates ext fs ds)"
    moreover obtain x where "load ext fs p = Inl x"
      using b by (cases "load ext fs p") auto
    ultimately have "Inl x \<in> set (map (load ext fs) (candidates ext fs ds))"
      by force
    then have "isl (promise_all (map (load ext fs) (candidates ext fs ds)))"
      by (rule promise_all_Inl)
    then show "isl (fst (run_from ext fs ds)) \<and> snd (run_from ext fs ds) = []"
      by (cases "promise_all (map (load ext fs) (candidates ext fs ds))")
         (auto simp: run_from_def)
  qed
  show ?thesis using a b c d e by blast
qed

lemma misspelled_read:
  "readFile (misspelled_tree n) (configPath (Polyfill [ascii n] (ascii n)))
     = Some (ascii ''licence = \"MIT\"'')"
  by (simp add: misspelled_tree_def configPath_def Polyfill_def readFile_def)

lemma misspelled_parse:
  "toml_parse demo_externals (ascii ''licence = \"MIT\"'')
     = Some (empty_config\<lparr>licence := Some (ascii ''MIT'')\<rparr>)"
  by (simp add: demo_externals_def demo_toml_def ascii_def)

theorem misspelled_licence_fails_witness:
  "readFile (misspelled_tree ''foo'') (configPath (Polyfill [ascii ''foo''] (ascii ''foo'')))
     = Some (ascii ''licence = \"MIT\"'')
   \<and> map_option licence (toml_parse demo_externals (ascii ''licence = \"MIT\"''))
       = Some (Some (ascii ''MIT''))
   \<and> map_option license (toml_parse demo_externals (ascii ''licence = \"MIT\"'')) = Some None
   \<and> loadConfig demo_externals (misspelled_tree ''foo'') (Polyfill [ascii ''foo''] (ascii ''foo''))
       = Inl (Error (ascii ''Incorrect spelling of license property in foo''))
   \<and> isl (fst (run demo_externals (misspelled_tree ''foo'')))
   \<and> snd (run demo_externals (misspelled_tree ''foo'')) = []"
proof -
  let ?p = "Polyfill [ascii ''foo''] (ascii ''foo'')"
  let ?cfg = "empty_config\<lparr>licence := Some (ascii ''MIT'')\<rparr>"
  let ?ds = "[[ascii ''foo'']]"
  have l: "licence ?cfg \<noteq> None" by simp
  have ni: "\<not> startsWith (path_relative ?p) (ascii ''_'')"
    by (simp add: Polyfill_def startsWith_def ascii_def)
  have nm: "name ?p = ascii ''foo''"
    by (simp add: Polyfill_def ascii_def)
  have ds: "flattenPolyfillDirectories []
      [(ascii ''foo'', Dir [(ascii ''config.toml'', File (ascii ''licence = \"MIT\"''))])] = ?ds"
    by (simp add: startsWith_def ascii_def)
  have r: "run demo_externals (misspelled_tree ''foo'')
             = run_from demo_externals (misspelled_tree ''foo'') ?ds"
    unfolding run_def misspelled_tree_def fsnode.case ds ..
  have c: "?p \<in> set (candidates demo_externals (misspelled_tree ''foo'') ?ds)"
    using misspelled_read [of "''foo''"]
    by (simp add: candidates_def hasConfigFile_def existsSync_def readFile_def demo_externals_def
          split: option.splits)
  have e: "license ?cfg = None" by (simp add: empty_config_def)
  note t = misspelled_licence_fails [OF misspelled_read [of "''foo''"] misspelled_parse l,
      where ds = "?ds"]
  have lc: "loadConfig demo_externals (misspelled_tree ''foo'') ?p
       = Inl (Error (ascii ''Incorrect spelling of license property in '' @ name ?p))"
    using t ni by blast
  have rn: "isl (fst (run demo_externals (misspelled_tree ''foo'')))
       \<and> snd (run demo_externals (misspelled_tree ''foo'')) = []"
    using t c unfolding r by blast
  have lc': "loadConfig demo_externals (misspelled_tree ''foo'') ?p
       = Inl (Error (ascii ''Incorrect spelling of license property in foo''))"
    unfolding lc nm by (simp add: ascii_def)
  show ?thesis
    using lc' rn e by (simp add: misspelled_read misspelled_parse)
qed

text \<open>
  The only other error of such a config is the TypeError of line 143, for an internal
  feature whose config has no \<^verbatim>\<open>browsers\<close> table.
\<close>

lemma misspelled_licence_error_cases:
  assumes "readFile fs (configPath p) = Some data"
    and "toml_parse ext data = Some cfg"
    and "licence cfg \<noteq> None"
  shows "(\<exists>m. loadConfig ext fs p = Inl (Error m) \<and> sublist (name p) m)
     \<or> (startsWith (path_relative p) (ascii ''_'') \<and> browsers cfg = None
          \<and> (\<exists>b bs. supportedBrowsers ext = b # bs
                \<and> loadConfig ext fs p
                    = Inl (TypeError (ascii ''Cannot read properties of undefined (reading ''
                                        @ [0x27] @ b @ [0x27] @ ascii '')''))))"
proof (cases "startsWith (path_relative p) (ascii ''_'') \<and> browsers cfg = None")
  case False
  then have "startsWith (path_relative p) (ascii ''_'') \<longrightarrow> browsers cfg \<noteq> None"
    by simp
  then have "\<exists>m. loadConfig ext fs p = Inl (Error m) \<and> sublist (name p) m"
    using misspelled_licence_fails [OF assms, where ds = "[]"] by blast
  then show ?thesis by blast
next
  case True
  show ?thesis
  proof (cases "supportedBrowsers ext")
    case Nil
    then have "check_internal ext p cfg = Inr ()"
      by (simp add: check_internal_def)
    then have "loadConfig ext fs p
        = Inl (Error (ascii ''Incorrect spelling of license property in '' @ name p))"
      using assms by (simp add: loadConfig_def)
    then show ?thesis
      using incorrect_spelling_names [of "name p"] by blast
  next
    case (Cons b bs)
    then have "check_internal ext p cfg
        = Inl (TypeError (ascii ''Cannot read properties of undefined (reading ''
                                        @ [0x27] @ b @ [0x27] @ ascii '')''))"
      using True by (simp add: check_internal_def)
    then have "loadConfig ext fs p
        = Inl (TypeError (ascii ''Cannot read properties of undefined (reading ''
                                        @ [0x27] @ b @ [0x27] @ ascii '')''))"
      using assms by (simp add: loadConfig_def)
    then show ?thesis using True Cons by simp
  qed
qed

text \<open>
  C6. A config with the key \<^verbatim>\<open>licence\<close> is to fail the run with an error that names
  the feature. The code breaks this at one input: for the internal feature \<^verbatim>\<open>_x\<close> whose
  config has \<^verbatim>\<open>licence\<close> and no \<^verbatim>\<open>browsers\<close> table, the unguarded
  \<^verbatim>\<open>this.config.browsers[browser]\<close> of line 143 reads a property of \<^verbatim>\<open>undefined\<close>,
  and the TypeError that \<^verbatim>\<open>loadConfig\<close> rejects with does not name the feature.
\<close>

theorem internal_misspelled_licence_type_error:
  "readFile (misspelled_tree ''_x'') (configPath (Polyfill [ascii ''_x''] (ascii ''_x'')))
     = Some (ascii ''licence = \"MIT\"'')
   \<and> map_option licence (toml_parse demo_externals (ascii ''licence = \"MIT\"''))
       = Some (Some (ascii ''MIT''))
   \<and> loadConfig demo_externals (misspelled_tree ''_x'') (Polyfill [ascii ''_x''] (ascii ''_x''))
       = Inl (TypeError (ascii ''Cannot read properties of undefined (reading 'chrome')''))
   \<and> name (Polyfill [ascii ''_x''] (ascii ''_x'')) = ascii ''_x''
   \<and> \<not> sublist (ascii ''_x'') (ascii ''Cannot read properties of undefined (reading 'chrome')'')"
proof -
  have a: "loadConfig demo_externals (misspelled_tree ''_x'') (Polyfill [ascii ''_x''] (ascii ''_x''))
       = Inl (TypeError (ascii ''Cannot read properties of undefined (reading 'chrome')''))"
    by (simp add: loadConfig_def misspelled_read misspelled_parse check_internal_def)
       (simp add: Polyfill_def startsWith_def demo_externals_def empty_config_def ascii_def)
  have b: "\<not> sublist (ascii ''_x'') (ascii ''Cannot read properties of undefined (reading 'chrome')'')"
    by (simp add: ascii_def sublist_Cons_right)
  have n: "name (Polyfill [ascii ''_x''] (ascii ''_x'')) = ascii ''_x''"
    by (simp add: Polyfill_def ascii_def)
  show ?thesis
    using a b n by (simp add: misspelled_read misspelled_parse)
qed

subsection \<open>The license check\<close>

text \<open>
  C7. \<^verbatim>\<open>checkLicense\<close> fails exactly when the config has a license and either the
  registry does not know it or the registry's entry is not OSI approved and the license is
  neither \<^verbatim>\<open>CC0-1.0\<close> nor \<^verbatim>\<open>WTFPL\<close>; the error is an \<^verbatim>\<open>Error\<close> whose message
  contains the license; a config with no license passes.
\<close>

theorem checkLicense_fails_iff:
  "(isl (checkLicense ext p) \<longleftrightarrow>
      (\<exists>l. license (config p) = Some l \<and>
           (spdx ext l = None \<or>
            (\<exists>lic. spdx ext l = Some lic \<and> \<not> OSIApproved lic
                   \<and> l \<noteq> ascii ''CC0-1.0'' \<and> l \<noteq> ascii ''WTFPL''))))
   \<and> (\<forall>e. checkLicense ext p = Inl e \<longrightarrow>
         (\<exists>l m. license (config p) = Some l \<and> e = Error m \<and> sublist l m))
   \<and> (license (config p) = None \<longrightarrow> checkLicense ext p = Inr ())"
proof -
  have s1: "\<And>l a b. sublist l (a @ l @ b)"
    by (rule sublist_appendI)
  have a: "isl (checkLicense ext p) \<longleftrightarrow>
      (\<exists>l. license (config p) = Some l \<and>
           (spdx ext l = None \<or>
            (\<exists>lic. spdx ext l = Some lic \<and> \<not> OSIApproved lic
                   \<and> l \<noteq> ascii ''CC0-1.0'' \<and> l \<noteq> ascii ''WTFPL'')))"
    by (auto simp: checkLicense_def split: option.splits)
  have b: "\<forall>e. checkLicense ext p = Inl e \<longrightarrow>
         (\<exists>l m. license (config p) = Some l \<and> e = Error m \<and> sublist l m)"
    by (auto simp: checkLicense_def split: option.splits if_splits intro: s1)
  have c: "license (config p) = None \<longrightarrow> checkLicense ext p = Inr ()"
    by (simp add: checkLicense_def)
  show ?thesis using a b c by blast
qed

theorem checkLicense_fails_iff_witness:
  "license (config json_licensed) = Some (ascii ''JSON'')
   \<and> map_option OSIApproved (spdx demo_externals (ascii ''JSON'')) = Some False
   \<and> isl (checkLicense demo_externals json_licensed)
   \<and> license (config (Polyfill [ascii ''a''] (ascii ''a''))) = None
   \<and> checkLicense demo_externals (Polyfill [ascii ''a''] (ascii ''a'')) = Inr ()"
proof -
  have l: "license (config json_licensed) = Some (ascii ''JSON'')"
    by (simp add: json_licensed_def)
  have r: "spdx demo_externals (ascii ''JSON'')
             = Some \<lparr>license_name = ascii ''JSON License'', OSIApproved = False\<rparr>"
    by (simp add: demo_externals_def demo_spdx_def ascii_def)
  have n1: "ascii ''JSON'' \<noteq> ascii ''CC0-1.0''" and n2: "ascii ''JSON'' \<noteq> ascii ''WTFPL''"
    by (simp_all add: ascii_def)
  have f: "isl (checkLicense demo_externals json_licensed)"
    using checkLicense_fails_iff [of demo_externals json_licensed] l r n1 n2 by simp
  have e: "license (config (Polyfill [ascii ''a''] (ascii ''a''))) = None"
    by (simp add: Polyfill_def empty_config_def)
  have g: "checkLicense demo_externals (Polyfill [ascii ''a''] (ascii ''a'')) = Inr ()"
    using checkLicense_fails_iff [of demo_externals "Polyfill [ascii ''a''] (ascii ''a'')"] e
    by blast
  show ?thesis using l r f e g by simp
qed

subsection \<open>The canonical name\<close>

lemma segments_nonempty: "segments s \<noteq> []"
  by (induction s) (auto split: list.splits)

lemma replace_is_dotted:
  "map (\<lambda>c. if c = 0x2F \<or> c = 0x5C then 0x2E else c) rel = dotted rel"
proof (induction rel)
  case Nil
  then show ?case by (simp add: dotted_def)
next
  case (Cons c cs)
  obtain s ss where seg: "segments cs = s # ss"
    using segments_nonempty [of cs] by (cases "segments cs") auto
  show ?case
    using Cons seg by (cases ss) (auto simp: dotted_def is_separator_def)
qed

text \<open>
  C8. The name the constructor computes is the relative path with every forward slash and
  backslash replaced by a dot, and a feature that comes out of the loading chain still
  has that name. The name is a function of the relative path alone, so two runs over the
  same layout compute the same names.
\<close>

theorem name_is_dotted_relative:
  "name (Polyfill absolute rel) = dotted rel
   \<and> (\<forall>p. load ext fs (Polyfill absolute rel) = Inr p \<longrightarrow> name p = dotted rel)"
proof -
  have n: "name (Polyfill absolute rel) = dotted rel"
    by (simp add: Polyfill_def replace_is_dotted)
  show ?thesis
    using n load_keeps [of ext fs "Polyfill absolute rel"] by auto
qed

theorem name_is_dotted_relative_witness:
  "relative Posix [ascii ''Array'', ascii ''of''] = ascii ''Array/of''
   \<and> dotted (ascii ''Array/of'') = ascii ''Array.of''
   \<and> map_sum id name
        (load demo_externals nested_tree
           (Polyfill [ascii ''Array'', ascii ''of''] (relative Posix [ascii ''Array'', ascii ''of''])))
      = Inr (ascii ''Array.of'')"
proof -
  have r: "relative Posix [ascii ''Array'', ascii ''of''] = ascii ''Array/of''"
    by (simp add: ascii_def)
  have d: "dotted (ascii ''Array/of'') = ascii ''Array.of''"
    by (simp add: dotted_def ascii_def is_separator_def)
  obtain p where p: "load demo_externals nested_tree
      (Polyfill [ascii ''Array'', ascii ''of''] (relative Posix [ascii ''Array'', ascii ''of''])) = Inr p"
    using nested_load_succeeds
    by (cases "load demo_externals nested_tree
      (Polyfill [ascii ''Array'', ascii ''of''] (relative Posix [ascii ''Array'', ascii ''of'']))") auto
  have "name p = dotted (relative Posix [ascii ''Array'', ascii ''of''])"
    using name_is_dotted_relative p by blast
  then show ?thesis
    using r d p by simp
qed

subsection \<open>Directories without a config file\<close>

lemma candidates_have_config:
  "q \<in> set (candidates ext fs ds) \<Longrightarrow> hasConfigFile fs q \<and> path_absolute q \<in> set ds"
  by (auto simp: candidates_def Polyfill_def)

lemma hasConfigFile_path:
  "hasConfigFile fs q = hasConfigFile fs (Polyfill (path_absolute q) rel)"
  by (simp add: hasConfigFile_def configPath_def Polyfill_def)

text \<open>
  C9. A discovered directory for which \<^verbatim>\<open>hasConfigFile\<close> is false is dropped by the
  filter of line 282, before any chain starts: no candidate and no loaded feature has its
  path, and the pipeline is the one that runs when the directory is not in the list at all,
  with the same outcome and the same writes, so nothing is attempted for it and its
  missing config raises no error.
\<close>

theorem missing_config_excluded:
  assumes "\<not> hasConfigFile fs (Polyfill d (relative (platform ext) d))"
  shows "(\<forall>q\<in>set (candidates ext fs ds). path_absolute q \<noteq> d)
     \<and> candidates ext fs (xs @ d # ys) = candidates ext fs (xs @ ys)
     \<and> run_from ext fs (xs @ d # ys) = run_from ext fs (xs @ ys)
     \<and> (\<forall>polyfills. promise_all (map (load ext fs) (candidates ext fs ds)) = Inr polyfills
           \<longrightarrow> (\<forall>q\<in>set polyfills. path_absolute q \<noteq> d))"
proof -
  have a: "\<forall>q\<in>set (candidates ext fs ds). path_absolute q \<noteq> d"
  proof
    fix q assume "q \<in> set (candidates ext fs ds)"
    then have "hasConfigFile fs q" by (simp add: candidates_have_config)
    then have "hasConfigFile fs (Polyfill (path_absolute q) (relative (platform ext) d))"
      using hasConfigFile_path by blast
    then show "path_absolute q \<noteq> d" using assms by auto
  qed
  have b: "candidates ext fs (xs @ d # ys) = candidates ext fs (xs @ ys)"
    using assms by (simp add: candidates_def)
  have c: "run_from ext fs (xs @ d # ys) = run_from ext fs (xs @ ys)"
    by (simp add: run_from_def b)
  have e: "\<forall>polyfills. promise_all (map (load ext fs) (candidates ext fs ds)) = Inr polyfills
           \<longrightarrow> (\<forall>q\<in>set polyfills. path_absolute q \<noteq> d)"
  proof (intro allI impI ballI)
    fix polyfills q
    assume p: "promise_all (map (load ext fs) (candidates ext fs ds)) = Inr polyfills"
      and q: "q \<in> set polyfills"
    have "map (load ext fs) (candidates ext fs ds) = map Inr polyfills"
      using p by (rule promise_all_Inr)
    then have "Inr q \<in> set (map (load ext fs) (candidates ext fs ds))"
      using q by simp
    then obtain c where c: "c \<in> set (candidates ext fs ds)" "load ext fs c = Inr q"
      by auto
    then have "path_absolute q = path_absolute c"
      using load_keeps by blast
    then show "path_absolute q \<noteq> d" using a c(1) by simp
  qed
  show ?thesis using a b c e by blast
qed

lemma nested_run_succeeds: "fst (run demo_externals nested_tree) = Inr ()"
  by (simp add: run_def run_from_def nested_tree_def candidates_def hasConfigFile_def configPath_def
      existsSync_def load_def loadConfig_def Polyfill_def readFile_def
      demo_externals_def demo_toml_def ascii_def check_internal_def startsWith_def
      empty_config_def load_detect_def detectPath_def checkLicense_def
      loadSources_def sourcePath_def minifyPolyfill_def minify_disabled_def validateSource_def
      updateConfig_def validate_and_write_def checkForCircularDependencies_def
      dependency_graph_def dependencies_def toposort_def checkDependenciesExist_def
      writeAliasFile_def aliases_def object_prototype_keys_def)

theorem missing_config_excluded_witness:
  "\<not> hasConfigFile nested_tree (Polyfill [ascii ''Array''] (relative Posix [ascii ''Array'']))
   \<and> flattenPolyfillDirectories [] [(ascii ''Array'', Dir [(ascii ''of'',
        Dir [(ascii ''config.toml'', File (ascii ''aliases = [\"bar\"]'')),
             (ascii ''polyfill.js'', File (ascii ''x;''))])])]
       = [[ascii ''Array'', ascii ''of''], [ascii ''Array'']]
   \<and> map path_absolute (candidates demo_externals nested_tree
          [[ascii ''Array'', ascii ''of''], [ascii ''Array'']]) = [[ascii ''Array'', ascii ''of'']]
   \<and> run_from demo_externals nested_tree [[ascii ''Array'', ascii ''of''], [ascii ''Array'']]
       = run_from demo_externals nested_tree [[ascii ''Array'', ascii ''of'']]
   \<and> fst (run demo_externals nested_tree) = Inr ()"
proof -
  have h: "\<not> hasConfigFile nested_tree
             (Polyfill [ascii ''Array''] (relative (platform demo_externals) [ascii ''Array'']))"
    by (simp add: hasConfigFile_def configPath_def Polyfill_def existsSync_def nested_tree_def
          ascii_def)
  have p: "platform demo_externals = Posix" by (simp add: demo_externals_def)
  have f: "flattenPolyfillDirectories [] [(ascii ''Array'', Dir [(ascii ''of'',
        Dir [(ascii ''config.toml'', File (ascii ''aliases = [\"bar\"]'')),
             (ascii ''polyfill.js'', File (ascii ''x;''))])])]
       = [[ascii ''Array'', ascii ''of''], [ascii ''Array'']]"
    by (simp add: startsWith_def ascii_def)
  have c: "map path_absolute (candidates demo_externals nested_tree
          [[ascii ''Array'', ascii ''of''], [ascii ''Array'']]) = [[ascii ''Array'', ascii ''of'']]"
    by (simp add: candidates_def hasConfigFile_def configPath_def Polyfill_def existsSync_def
          nested_tree_def ascii_def)
  have r: "run_from demo_externals nested_tree ([[ascii ''Array'', ascii ''of'']] @ [ascii ''Array''] # [])
       = run_from demo_externals nested_tree ([[ascii ''Array'', ascii ''of'']] @ [])"
    using missing_config_excluded [OF h, where xs = "[[ascii ''Array'', ascii ''of'']]" and ys = "[]"]
    by blast
  show ?thesis
    using h f c r nested_run_succeeds unfolding p by simp
qed

subsection \<open>Feature discovery\<close>

lemma flatten_member:
  "q \<in> set (flattenPolyfillDirectories dir es) \<longleftrightarrow>
     (\<exists>i is. q = dir @ i # is \<and> has_directory es i is
             \<and> list_all (\<lambda>i. \<not> startsWith i (ascii ''__'')) (i # is))"
proof (induction dir es arbitrary: q rule: flattenPolyfillDirectories.induct)
  case (1 directory)
  then show ?case by simp
next
  case (2 directory item c rest)
  then show ?case by simp
next
  case (3 directory item es rest)
  let ?ok = "\<lambda>i. \<not> startsWith i (ascii ''__'')"
  let ?here = "\<exists>is. q = directory @ item # is \<and> is_directory (Dir es) is \<and> list_all ?ok (item # is)"
  let ?there = "\<exists>i is. q = directory @ i # is \<and> has_directory rest i is \<and> list_all ?ok (i # is)"
  have split: "(\<exists>i is. q = directory @ i # is \<and> has_directory ((item, Dir es) # rest) i is
                  \<and> list_all ?ok (i # is)) \<longleftrightarrow> ?here \<or> ?there"
    by auto
  have rest: "q \<in> set (flattenPolyfillDirectories directory rest) \<longleftrightarrow> ?there"
    by (rule 3(2))
  have here: "(?ok item \<and> (q \<in> set (flattenPolyfillDirectories (directory @ [item]) es)
                            \<or> q = directory @ [item])) \<longleftrightarrow> ?here"
  proof (cases "?ok item")
    case False
    then show ?thesis by auto
  next
    case True
    have sub: "q \<in> set (flattenPolyfillDirectories (directory @ [item]) es) \<longleftrightarrow>
       (\<exists>i is. q = directory @ item # i # is \<and> has_directory es i is \<and> list_all ?ok (i # is))"
      using 3(1) [OF True] by simp
    have "?here \<longleftrightarrow> q = directory @ [item]
        \<or> (\<exists>i is. q = directory @ item # i # is \<and> has_directory es i is \<and> list_all ?ok (i # is))"
    proof
      assume ?here
      then obtain js where js: "q = directory @ item # js" "is_directory (Dir es) js"
        "list_all ?ok (item # js)" by blast
      show "q = directory @ [item]
        \<or> (\<exists>i is. q = directory @ item # i # is \<and> has_directory es i is \<and> list_all ?ok (i # is))"
      proof (cases js)
        case Nil
        then show ?thesis using js(1) by simp
      next
        case (Cons i "is")
        then show ?thesis using js by auto
      qed
    next
      assume "q = directory @ [item]
        \<or> (\<exists>i is. q = directory @ item # i # is \<and> has_directory es i is \<and> list_all ?ok (i # is))"
      then show ?here
      proof
        assume "q = directory @ [item]"
        then show ?here using True by simp
      next
        assume "\<exists>i is. q = directory @ item # i # is \<and> has_directory es i is \<and> list_all ?ok (i # is)"
        then obtain i "is" where "q = directory @ item # i # is" "has_directory es i is"
          "list_all ?ok (i # is)" by blast
        then have "q = directory @ item # (i # is) \<and> is_directory (Dir es) (i # is)
           \<and> list_all ?ok (item # i # is)"
          using True by simp
        then show ?here by blast
      qed
    qed
    then show ?thesis using True sub by blast
  qed
  have "q \<in> set (flattenPolyfillDirectories directory ((item, Dir es) # rest)) \<longleftrightarrow>
      (?ok item \<and> (q \<in> set (flattenPolyfillDirectories (directory @ [item]) es)
                            \<or> q = directory @ [item]))
      \<or> q \<in> set (flattenPolyfillDirectories directory rest)"
    by auto
  then show ?case
    unfolding split here [symmetric] rest [symmetric] .
qed


lemma startsWith_single: "startsWith s [u] \<longleftrightarrow> s \<noteq> [] \<and> hd s = u"
  by (cases s) (auto simp: startsWith_def)

lemma hd_relative:
  "p \<noteq> [] \<Longrightarrow> hd p \<noteq> [] \<Longrightarrow> relative pf p \<noteq> [] \<and> hd (relative pf p) = hd (hd p)"
  by (induction pf p rule: relative.induct) auto

lemma relative_empty_head:
  "relative pf ([] # i # is) \<noteq> [] \<and> hd (relative pf ([] # i # is)) = sep pf"
  by simp

lemma sep_not_underscore: "sep pf \<noteq> 0x5F"
  by (cases pf) simp_all

lemma name_startsWith_underscore:
  "startsWith (name (Polyfill p (relative pf p))) (ascii ''_'')
     \<longleftrightarrow> p \<noteq> [] \<and> startsWith (hd p) (ascii ''_'')"
proof -
  have u: "ascii ''_'' = [0x5F]" by (simp add: ascii_def)
  have n: "\<And>r. startsWith (map (\<lambda>c. if c = 0x2F \<or> c = 0x5C then 0x2E else c) r) [0x5F :: jschar]
             \<longleftrightarrow> startsWith r [0x5F]"
  proof -
    fix r :: jsstring
    show "startsWith (map (\<lambda>c. if c = 0x2F \<or> c = 0x5C then 0x2E else c) r) [0x5F :: jschar]
             \<longleftrightarrow> startsWith r [0x5F]"
      by (cases r) (auto simp: startsWith_def)
  qed
  have r: "startsWith (relative pf p) [0x5F] \<longleftrightarrow> p \<noteq> [] \<and> startsWith (hd p) [0x5F]"
  proof (cases p)
    case Nil
    then show ?thesis by (simp add: startsWith_def)
  next
    case (Cons i "is")
    show ?thesis
    proof (cases "i = []")
      case True
      then show ?thesis
        using Cons sep_not_underscore [of pf]
        by (cases "is") (auto simp: startsWith_def)
    next
      case False
      then show ?thesis
        using Cons hd_relative [of p pf] by (simp add: startsWith_single)
    qed
  qed
  show ?thesis
    unfolding u by (simp add: Polyfill_def n r)
qed

lemma load_detect_isPublic:
  "load_detect ext fs p cfg = Inr cfg' \<Longrightarrow> isPublic cfg' = isPublic cfg"
  by (auto simp: load_detect_def split: if_splits option.splits sum.splits)

lemma loadConfig_isPublic:
  "loadConfig ext fs p = Inr q \<Longrightarrow> isPublic (config q) = Some (\<not> startsWith (name p) (ascii ''_''))"
  by (auto simp: loadConfig_def split: option.splits sum.splits if_splits
           dest!: load_detect_isPublic)

text \<open>
  C10 (as amended). Discovery returns exactly the directories below the root none of
  whose names on the way starts with \<^verbatim>\<open>__\<close>; one underscore is no obstacle. The output
  directory \<^verbatim>\<open>__dist\<close> below the root is therefore never part of a discovered path. A
  feature that loads is non-public exactly when the first name of its path, its top-level
  directory, starts with an underscore.
\<close>

theorem discovery_excludes_double_underscore:
  "set (flattenPolyfillDirectories [] es)
     = {p. p \<noteq> [] \<and> is_directory (Dir es) p \<and> (\<forall>i\<in>set p. \<not> startsWith i (ascii ''__''))}
   \<and> (\<forall>p\<in>set (flattenPolyfillDirectories [] es). ascii ''__dist'' \<notin> set p)
   \<and> destination ext = absolute_string ext [ascii ''__dist'']
   \<and> (\<forall>p q. loadConfig ext fs (Polyfill p (relative (platform ext) p)) = Inr q
         \<longrightarrow> isPublic (config q) = Some (\<not> (p \<noteq> [] \<and> startsWith (hd p) (ascii ''_''))))"
proof -
  have a: "set (flattenPolyfillDirectories [] es)
     = {p. p \<noteq> [] \<and> is_directory (Dir es) p \<and> (\<forall>i\<in>set p. \<not> startsWith i (ascii ''__''))}"
  proof (rule set_eqI)
    fix q
    have "is_directory (Dir es) q \<and> q \<noteq> [] \<longleftrightarrow> (\<exists>i is. q = i # is \<and> has_directory es i is)"
      by (cases q) auto
    then show "q \<in> set (flattenPolyfillDirectories [] es)
       \<longleftrightarrow> q \<in> {p. p \<noteq> [] \<and> is_directory (Dir es) p \<and> (\<forall>i\<in>set p. \<not> startsWith i (ascii ''__''))}"
      unfolding flatten_member by (auto simp: list_all_iff)
  qed
  have s: "startsWith (ascii ''__dist'') (ascii ''__'')"
    by (simp add: startsWith_def ascii_def)
  have b: "\<forall>p\<in>set (flattenPolyfillDirectories [] es). ascii ''__dist'' \<notin> set p"
    unfolding a using s by blast
  have c: "destination ext = absolute_string ext [ascii ''__dist'']"
    by (simp add: destination_def absolute_string_def)
  have d: "\<forall>p q. loadConfig ext fs (Polyfill p (relative (platform ext) p)) = Inr q
         \<longrightarrow> isPublic (config q) = Some (\<not> (p \<noteq> [] \<and> startsWith (hd p) (ascii ''_'')))"
  proof (intro allI impI)
    fix p q
    assume "loadConfig ext fs (Polyfill p (relative (platform ext) p)) = Inr q"
    then have "isPublic (config q)
        = Some (\<not> startsWith (name (Polyfill p (relative (platform ext) p))) (ascii ''_''))"
      by (rule loadConfig_isPublic)
    then show "isPublic (config q) = Some (\<not> (p \<noteq> [] \<and> startsWith (hd p) (ascii ''_'')))"
      by (simp only: name_startsWith_underscore)
  qed
  show ?thesis by (intro conjI a b c d)
qed

lemma underscore_discovered:
  "flattenPolyfillDirectories [] underscore_entries
     = [[ascii ''_p''], [ascii ''a'', ascii ''_b''], [ascii ''a'']]"
  by (simp add: underscore_entries_def startsWith_def ascii_def)

lemma underscore_internal_loads:
  "\<not> isl (loadConfig demo_externals underscore_tree
             (Polyfill [ascii ''_p''] (relative (platform demo_externals) [ascii ''_p''])))"
  by (simp add: loadConfig_def Polyfill_def underscore_tree_def underscore_entries_def
      configPath_def readFile_def demo_externals_def demo_toml_def ascii_def check_internal_def
      startsWith_def empty_config_def load_detect_def detectPath_def existsSync_def)

theorem discovery_excludes_double_underscore_witness:
  "flattenPolyfillDirectories [] underscore_entries
     = [[ascii ''_p''], [ascii ''a'', ascii ''_b''], [ascii ''a'']]
   \<and> is_directory (Dir underscore_entries) [ascii ''__dist'', ascii ''foo'']
   \<and> startsWith (ascii ''_p'') (ascii ''_'')
   \<and> map_sum id (\<lambda>q. isPublic (config q))
        (loadConfig demo_externals underscore_tree
           (Polyfill [ascii ''_p''] (relative (platform demo_externals) [ascii ''_p''])))
      = Inr (Some False)"
proof -
  note t = discovery_excludes_double_underscore
    [where es = underscore_entries and ext = demo_externals and fs = underscore_tree]
  obtain q where q: "loadConfig demo_externals underscore_tree
      (Polyfill [ascii ''_p''] (relative (platform demo_externals) [ascii ''_p''])) = Inr q"
    using underscore_internal_loads
    by (cases "loadConfig demo_externals underscore_tree
      (Polyfill [ascii ''_p''] (relative (platform demo_externals) [ascii ''_p'']))") auto
  have s: "startsWith (ascii ''_p'') (ascii ''_'')"
    by (simp add: startsWith_def ascii_def)
  have "isPublic (config q) = Some (\<not> ([ascii ''_p''] \<noteq> [] \<and> startsWith (hd [ascii ''_p'']) (ascii ''_'')))"
    using t q by blast
  then have p: "isPublic (config q) = Some False"
    using s by simp
  have d: "is_directory (Dir underscore_entries) [ascii ''__dist'', ascii ''foo'']"
    by (simp add: underscore_entries_def ascii_def)
  show ?thesis
    using underscore_discovered d s p q by simp
qed

text \<open>
  C10 as stated fails: the directory \<^verbatim>\<open>a/_b\<close> has a name that begins with a single
  underscore and is discovered, and its feature \<^verbatim>\<open>a._b\<close> is public.
\<close>

theorem nested_underscore_is_public:
  "[ascii ''a'', ascii ''_b''] \<in> set (flattenPolyfillDirectories [] underscore_entries)
   \<and> startsWith (ascii ''_b'') (ascii ''_'')
   \<and> \<not> startsWith (ascii ''_b'') (ascii ''__'')
   \<and> map_sum id (\<lambda>q. isPublic (config q))
        (loadConfig demo_externals underscore_tree
           (Polyfill [ascii ''a'', ascii ''_b''] (relative Posix [ascii ''a'', ascii ''_b''])))
      = Inr (Some True)"
proof -
  have a: "[ascii ''a'', ascii ''_b''] \<in> set (flattenPolyfillDirectories [] underscore_entries)"
    by (simp add: underscore_discovered)
  have b: "startsWith (ascii ''_b'') (ascii ''_'')" "\<not> startsWith (ascii ''_b'') (ascii ''__'')"
    by (simp_all add: startsWith_def ascii_def)
  have c: "map_sum id (\<lambda>q. isPublic (config q))
        (loadConfig demo_externals underscore_tree
           (Polyfill [ascii ''a'', ascii ''_b''] (relative Posix [ascii ''a'', ascii ''_b''])))
      = Inr (Some True)"
    by (simp add: loadConfig_def Polyfill_def underscore_tree_def underscore_entries_def
      configPath_def readFile_def demo_externals_def demo_toml_def ascii_def check_internal_def
      startsWith_def empty_config_def load_detect_def detectPath_def existsSync_def)
  show ?thesis using a b c by simp
qed

end
